theory Spec2Isabelle
  imports Main
begin

section \<open>Startup orchestration of Discord-System-V4\<close>

text \<open>
  The repository holds two startup scripts: \<^verbatim>\<open>src/bot.js\<close> and the unnamed
  variant \<^verbatim>\<open>src/unnamed/part_000\<close>. Both are straight-line glue around external
  modules. A run is modelled as the list of observable events it produces, in
  order, together with the way the asynchronous main function ends. Everything
  the scripts do not define themselves (the modules they try to require, the
  client object, the directory contents, the environment variables) is a field
  of an environment record, so that a theorem over all environments is a
  theorem over all runs. A call to external code either returns or throws;
  a call that never settles is outside this model, and writing to the console
  never throws. A run whose main function ends with an exception in flight
  leaves the process to the runtime's policy for unhandled rejections, which
  the scripts do not set.
\<close>

subsection \<open>JavaScript values as far as the scripts inspect them\<close>

text \<open>The result of calling an external function: it returns (the flag is the
  truthiness of the returned value, which only \<^verbatim>\<open>||\<close> looks at) or throws
  (for an awaited call: the promise rejects) with an error.\<close>

datatype result = Returns bool | Throws string

text \<open>A defined, truthy property value is a function or something else; an absent
  (undefined or null) one is \<open>None\<close> of the option type around it.\<close>

datatype jsvalue = NotCallable | Callable result

text \<open>\<^verbatim>\<open>require(path).name\<close>: the expression throws (\<open>Missing\<close>) or yields the
  exported value, \<open>None\<close> when the module exports nothing under that name.\<close>

datatype 'a module = Missing | Exports "'a option"

datatype level = Log | Warn | Error

record logger =
  logger_log :: "jsvalue option"
  logger_warn :: "jsvalue option"
  logger_error :: "jsvalue option"

text \<open>The client object. \<open>config\<close> is \<open>None\<close> when \<^verbatim>\<open>client.config\<close> is falsy,
  \<open>Some None\<close> when \<^verbatim>\<open>client.config.DASHBOARD\<close> is falsy, and otherwise holds the
  truthiness of \<^verbatim>\<open>client.config.DASHBOARD.enabled\<close>. \<open>commands_set\<close> is
  \<^verbatim>\<open>client.commands.set\<close>, absent when \<^verbatim>\<open>client.commands\<close> is falsy.\<close>

record client =
  config :: "bool option option"
  logger :: "logger option"
  loadCommands :: "jsvalue option"
  loadCommandTests :: "jsvalue option"
  loadEvents :: "jsvalue option"
  registerEvents :: "jsvalue option"
  commands_set :: "jsvalue option"
  client_on :: "jsvalue option"
  login :: "jsvalue option"

subsection \<open>Events, completion and control flow\<close>

datatype event =
    DotenvConfig
  | Console level "string list"
  | LoggerCall level "string list"
  | Call string
  | Settled string
  | TypeError string
  | New string
  | Require string
  | ProcessOn string
  | ProcessExit nat
  | CommandsSet string string
  | ClientOn string string

text \<open>How a block of statements ends: it falls through, an exception is in
  flight, or \<^verbatim>\<open>process.exit\<close> has ended the process.\<close>

datatype status = Normal | Thrown string | Exited nat

type_synonym block = "event list \<times> status"

definition skip :: block where
  "skip = ([], Normal)"

definition emit :: "event \<Rightarrow> block" where
  "emit e = ([e], Normal)"

definition throw :: "string \<Rightarrow> block" where
  "throw e = ([], Thrown e)"

definition process_exit :: "nat \<Rightarrow> block" where
  "process_exit n = ([ProcessExit n], Exited n)"

definition seq :: "block \<Rightarrow> block \<Rightarrow> block" where
  "seq a b = (case snd a of Normal \<Rightarrow> (fst a @ fst b, snd b) | _ \<Rightarrow> a)"

fun seqs :: "block list \<Rightarrow> block" where
  "seqs [] = skip"
| "seqs (b # bs) = seq b (seqs bs)"

definition try_catch :: "block \<Rightarrow> (string \<Rightarrow> block) \<Rightarrow> block" where
  "try_catch a h = (case snd a of Thrown e \<Rightarrow> (fst a @ fst (h e), snd (h e)) | _ \<Rightarrow> a)"

text \<open>Calling a property value: a function is invoked (event \<open>ev\<close>) and returns or
  throws; anything else raises a TypeError without invoking anything.\<close>

definition invoke :: "event \<Rightarrow> string \<Rightarrow> jsvalue option \<Rightarrow> block" where
  "invoke ev nm v =
     (case v of
        Some (Callable (Returns b)) \<Rightarrow> ([ev], Normal)
      | Some (Callable (Throws e)) \<Rightarrow> ([ev], Thrown e)
      | _ \<Rightarrow> ([TypeError nm], Thrown ''TypeError''))"

definition call :: "string \<Rightarrow> jsvalue option \<Rightarrow> block" where
  "call nm v = invoke (Call nm) nm v"

text \<open>\<^verbatim>\<open>await f()\<close>: the call, after which the script waits until the promise it
  returned has settled, by resolving or by rejecting; only then does the next
  statement begin. A call without \<^verbatim>\<open>await\<close> is \<open>call\<close>: the script goes on as soon
  as the function has returned.\<close>

definition await_call :: "string \<Rightarrow> jsvalue option \<Rightarrow> block" where
  "await_call nm v =
     (case v of
        Some (Callable (Returns b)) \<Rightarrow> ([Call nm, Settled nm], Normal)
      | Some (Callable (Throws e)) \<Rightarrow> ([Call nm, Settled nm], Thrown e)
      | _ \<Rightarrow> ([TypeError nm], Thrown ''TypeError''))"

definition is_function :: "jsvalue option \<Rightarrow> bool" where
  "is_function v = (case v of Some (Callable r) \<Rightarrow> True | _ \<Rightarrow> False)"

definition truthy :: "string option \<Rightarrow> bool" where
  "truthy s = (case s of None \<Rightarrow> False | Some t \<Rightarrow> t \<noteq> [])"

fun logger_prop :: "level \<Rightarrow> logger \<Rightarrow> jsvalue option" where
  "logger_prop Log l = logger_log l"
| "logger_prop Warn l = logger_warn l"
| "logger_prop Error l = logger_error l"

fun level_name :: "level \<Rightarrow> string" where
  "level_name Log = ''client.logger.log''"
| "level_name Warn = ''client.logger.warn''"
| "level_name Error = ''client.logger.error''"

text \<open>\<^verbatim>\<open>client.logger && client.logger.f && client.logger.f(args)\<close> of bot.js.\<close>

definition guarded_log :: "client \<Rightarrow> level \<Rightarrow> string list \<Rightarrow> block" where
  "guarded_log c lv args =
     (case logger c of
        None \<Rightarrow> skip
      | Some l \<Rightarrow>
          (case logger_prop lv l of
             None \<Rightarrow> skip
           | Some v \<Rightarrow> invoke (LoggerCall lv args) (level_name lv) (Some v)))"

subsection \<open>src/bot.js\<close>

record env_bot =
  BOT_TOKEN :: "string option"
  botUtils_checkForUpdates :: "jsvalue module"
  mongoose_initializeMongoose :: "jsvalue module"
  core_BotClient :: "(string + client) module"
  validateConfiguration_module :: "jsvalue module"
  dashboard_launch :: "jsvalue module"
  figlet_textSync :: "jsvalue module"

definition USE_FIGLET :: bool where
  "USE_FIGLET = False"

text \<open>The fallback class \<^verbatim>\<open>MinimalBotClient\<close> (bot.js lines 81-113). Its loaders
  are empty and its logger is the console. The body of its \<open>login\<close> is
  \<open>MinimalBotClient_login\<close> below, which \<open>login_bot\<close> runs in place of the
  opaque field when this class is the one in use.\<close>

definition MinimalBotClient :: client where
  "MinimalBotClient =
     \<lparr> config = Some (Some False),
       logger = Some \<lparr> logger_log = Some (Callable (Returns False)),
                      logger_warn = None,
                      logger_error = Some (Callable (Returns False)) \<rparr>,
       loadCommands = Some (Callable (Returns False)),
       loadCommandTests = Some (Callable (Returns False)),
       loadEvents = Some (Callable (Returns False)),
       registerEvents = None,
       commands_set = None,
       client_on = None,
       login = Some (Callable (Returns True)) \<rparr>"

text \<open>The four guarded requires at the top of bot.js (lines 49-129): a require that
  throws is replaced by a no-op, respectively by \<^verbatim>\<open>MinimalBotClient\<close>.\<close>

definition or_noop :: "jsvalue module \<Rightarrow> jsvalue option" where
  "or_noop m = (case m of Missing \<Rightarrow> Some (Callable (Returns False)) | Exports v \<Rightarrow> v)"

definition BotClient_bot :: "env_bot \<Rightarrow> (string + client) option" where
  "BotClient_bot env =
     (case core_BotClient env of Missing \<Rightarrow> Some (Inr MinimalBotClient) | Exports c \<Rightarrow> c)"

text \<open>\<^verbatim>\<open>new BotClient()\<close>: a TypeError when the name holds no constructor, the
  constructor's own exception, or a client.\<close>

definition construct :: "(string + client) option \<Rightarrow> (client \<Rightarrow> block) \<Rightarrow> block" where
  "construct ctor k =
     (case ctor of
        None \<Rightarrow> ([TypeError ''BotClient''], Thrown ''TypeError'')
      | Some (Inl e) \<Rightarrow> ([New ''BotClient''], Thrown e)
      | Some (Inr c) \<Rightarrow> seq (emit (New ''BotClient'')) (k c))"

text \<open>\<^verbatim>\<open>printStartupBanner\<close> (lines 167-209). The banner and the figlet title are
  art in box-drawing characters; the events carry the names of the constants
  that hold them, and the figlet branch shows its rule lines as \<^verbatim>\<open>=\<close>.\<close>

definition printStartupBanner :: "bool \<Rightarrow> jsvalue module \<Rightarrow> block" where
  "printStartupBanner use_figlet figlet =
     (if use_figlet then
        try_catch
          (seqs [case figlet of Missing \<Rightarrow> throw ''MODULE_NOT_FOUND''
                              | Exports v \<Rightarrow> call ''figlet.textSync'' v,
                 emit (Console Log [''=''] ), emit (Console Log [''titleText'']),
                 emit (Console Log [''Developer: Shaad You'']),
                 emit (Console Log [''Support: https://discord.gg/mFEehCPKEW'']),
                 emit (Console Log [''Made By Code Nexus'']),
                 emit (Console Log [''='']) ])
          (\<lambda>err. seqs [emit (Console Warn [''figlet not installed or failed to run, using static banner. Install figlet with `npm i figlet` to enable it.'']),
                       emit (Console Log [''STATIC_ASCII_BANNER''])])
      else emit (Console Log [''STATIC_ASCII_BANNER'']))"

text \<open>The loader calls of lines 239-279, each behind a \<^verbatim>\<open>typeof\<close> test and inside
  its own try/catch whose handler logs through the guarded logger.\<close>

definition load_step :: "client \<Rightarrow> string \<Rightarrow> jsvalue option \<Rightarrow> string \<Rightarrow> block" where
  "load_step c nm v msg =
     (if is_function v
      then try_catch (call nm v) (\<lambda>err. guarded_log c Error [msg, err])
      else skip)"

definition hasDashboard :: "client \<Rightarrow> bool" where
  "hasDashboard c = (case config c of Some (Some b) \<Rightarrow> b | _ \<Rightarrow> False)"

text \<open>Lines 319-343: the dashboard branch.\<close>

definition dashboard_branch :: "env_bot \<Rightarrow> client \<Rightarrow> block" where
  "dashboard_branch env c =
     try_catch
       (seq (emit (Require ''@root/dashboard/launch''))
          (case dashboard_launch env of
             Missing \<Rightarrow> throw ''MODULE_NOT_FOUND''
           | Exports v \<Rightarrow>
               (if is_function v
                then seq (guarded_log c Log [''Launching dashboard...''])
                         (await_call ''dashboardLauncher.launch'' v)
                else guarded_log c Warn [''Dashboard launch module not found or invalid.''])))
       (\<lambda>err. guarded_log c Error [''Failed to launch dashboard'', err])"

text \<open>Lines 349-361: the database branch.\<close>

definition database_branch :: "env_bot \<Rightarrow> client \<Rightarrow> block" where
  "database_branch env c =
     try_catch (await_call ''initializeMongoose'' (or_noop (mongoose_initializeMongoose env)))
       (\<lambda>err. guarded_log c Error [''Failed to initialize database:'', err])"

text \<open>\<^verbatim>\<open>await client.login(token)\<close> (line 377). When the class is the script's own
  \<^verbatim>\<open>MinimalBotClient\<close>, the call runs its \<^verbatim>\<open>login\<close> (lines 103-111): it throws on a
  falsy token and otherwise logs the first six characters of the token through
  \<^verbatim>\<open>this.logger.log\<close>, which is the console.\<close>

definition MinimalBotClient_login :: "string option \<Rightarrow> block" where
  "MinimalBotClient_login token =
     (if \<not> truthy token
      then ([Call ''client.login'', Settled ''client.login''], Thrown ''Missing token'')
      else ([Call ''client.login'',
             LoggerCall Log [''Pretend login with token:'', take 6 (the token) @ ''...''],
             Settled ''client.login''], Normal))"

definition login_bot :: "env_bot \<Rightarrow> client \<Rightarrow> block" where
  "login_bot env c =
     (case core_BotClient env of
        Missing \<Rightarrow> MinimalBotClient_login (BOT_TOKEN env)
      | Exports x \<Rightarrow> await_call ''client.login'' (login c))"

text \<open>Lines 307-397: the startup flow inside the outer try, and its catch.\<close>

definition startup_flow :: "env_bot \<Rightarrow> client \<Rightarrow> block" where
  "startup_flow env c =
     seqs [await_call ''checkForUpdates'' (or_noop (botUtils_checkForUpdates env)),
           if hasDashboard c then dashboard_branch env c else database_branch env c,
           if \<not> truthy (BOT_TOKEN env)
           then seq (guarded_log c Error [''BOT_TOKEN not set in environment. Exiting.''])
                    (process_exit 1)
           else skip,
           login_bot env c,
           guarded_log c Log [''Bot started successfully.'']]"

definition startup_catch :: "client \<Rightarrow> string \<Rightarrow> block" where
  "startup_catch c err =
     seq (try_catch (guarded_log c Error [''Startup error'', err])
            (\<lambda>x. emit (Console Error [''Startup error'', err])))
         (process_exit 1)"

definition startup :: "env_bot \<Rightarrow> client \<Rightarrow> block" where
  "startup env c = try_catch (startup_flow env c) (startup_catch c)"

text \<open>Lines 239-279: the three loader calls.\<close>

definition loaders_bot :: "client \<Rightarrow> block" where
  "loaders_bot c =
     seqs [load_step c ''client.loadCommands'' (loadCommands c) ''Failed to load commands:'',
           load_step c ''client.loadCommandTests'' (loadCommandTests c) ''Failed to load command tests:'',
           load_step c ''client.loadEvents'' (loadEvents c) ''Failed to load events:'']"

definition after_construct_bot :: "env_bot \<Rightarrow> client \<Rightarrow> block" where
  "after_construct_bot env c =
     seqs [loaders_bot c,
           emit (ProcessOn ''unhandledRejection''),
           startup env c]"

text \<open>Lines 221-231.\<close>

definition validation_bot :: "env_bot \<Rightarrow> block" where
  "validation_bot env =
     try_catch (call ''validateConfiguration'' (or_noop (validateConfiguration_module env)))
       (\<lambda>err. seq (emit (Console Error [''Configuration validation failed:'', err]))
                   (process_exit 1))"

text \<open>The whole script: the top-level statements, then the async main function
  (lines 213-399).\<close>

definition main_bot :: "env_bot \<Rightarrow> block" where
  "main_bot env =
     seqs [emit DotenvConfig,
           printStartupBanner USE_FIGLET (figlet_textSync env),
           validation_bot env,
           construct (BotClient_bot env) (after_construct_bot env)]"

text \<open>The handler installed for \<^verbatim>\<open>unhandledRejection\<close> (lines 283-303). The
  handler tests \<^verbatim>\<open>client\<close> itself, so the model takes an optional client.\<close>

definition unhandledRejection_bot :: "client option \<Rightarrow> string \<Rightarrow> block" where
  "unhandledRejection_bot c err =
     try_catch
       (case c of
          None \<Rightarrow> emit (Console Error [''unhandledRejection'', err])
        | Some cl \<Rightarrow>
            (case logger cl of
               None \<Rightarrow> emit (Console Error [''unhandledRejection'', err])
             | Some l \<Rightarrow>
                 (if is_function (logger_error l)
                  then invoke (LoggerCall Error [''unhandledRejection'', err])
                         ''client.logger.error'' (logger_error l)
                  else emit (Console Error [''unhandledRejection'', err]))))
       (\<lambda>e. emit (Console Error [''Error logging unhandledRejection:'', e]))"

subsection \<open>src/unnamed/part_000\<close>

text \<open>What a handler file exports, as far as the directory scan inspects it:
  null or undefined, a function (with its \<^verbatim>\<open>name\<close> property), or any other
  value with its \<^verbatim>\<open>name\<close> property (absent when \<open>None\<close>) and whether its
  \<^verbatim>\<open>execute\<close> property is a function.\<close>

datatype export = Nullish | Func string | Obj "string option" bool

text \<open>A directory: \<^verbatim>\<open>fs.existsSync\<close> is false, \<^verbatim>\<open>fs.readdirSync\<close> throws, or
  the entries in listing order, each with what \<^verbatim>\<open>require\<close> of it does (\<open>Inl\<close>:
  it throws).\<close>

datatype directory = Absent | Unreadable string | Entries "(string \<times> (string + export)) list"

text \<open>A dashboard launcher module: it has a \<^verbatim>\<open>launch\<close> function, or is itself a
  function, or neither.\<close>

datatype launcher = NoLaunch | WithLaunch result | IsFunction result

record env_p0 =
  BOT_TOKEN_p0 :: "string option"
  TOKEN_p0 :: "string option"
  dashboard_checkForUpdates :: "jsvalue module"
  root_checkForUpdates :: "jsvalue module"
  src_initializeMongoose :: "jsvalue module"
  root_initializeMongoose :: "jsvalue module"
  config_validateConfiguration :: "jsvalue module"
  src_validateConfiguration :: "jsvalue module"
  root_validateConfiguration :: "jsvalue module"
  local_BotClient :: "(string + client) module"
  alias_BotClient :: "(string + client) module"
  discord_js :: "(string + client) option"
  commands_dir :: directory
  events_dir :: directory
  dashboard_launcher_js :: "(string + launcher) option"
  dashboard_index_js :: "(string + launcher) option"
  dashboard_server_js :: "(string + launcher) option"
  src_dashboard_index_js :: "(string + launcher) option"
  dashboard_package :: "string + launcher"

text \<open>The script's own \<^verbatim>\<open>log\<close> object (lines 39-43) writes to the console.\<close>

definition log_info :: "string list \<Rightarrow> block" where
  "log_info args = emit (Console Log (''[INFO]'' # args))"

definition log_warn :: "string list \<Rightarrow> block" where
  "log_warn args = emit (Console Warn (''[WARN]'' # args))"

definition log_error :: "string list \<Rightarrow> block" where
  "log_error args = emit (Console Error (''[ERROR]'' # args))"

text \<open>\<^verbatim>\<open>require(a).x || require(b).x || ...\<close>: \<open>None\<close> when a require throws
  before a truthy export is found, otherwise the value of the chain.\<close>

fun require_chain :: "'a module list \<Rightarrow> 'a option option" where
  "require_chain [] = Some None"
| "require_chain (Missing # ms) = None"
| "require_chain (Exports (Some v) # ms) = Some (Some v)"
| "require_chain (Exports None # ms) = require_chain ms"

text \<open>The optional helpers start as \<^verbatim>\<open>null\<close> and stay so when the chain throws
  (lines 49-73).\<close>

definition optional_helper :: "jsvalue module list \<Rightarrow> jsvalue option" where
  "optional_helper ms = (case require_chain ms of None \<Rightarrow> None | Some v \<Rightarrow> v)"

definition checkForUpdates_p0 :: "env_p0 \<Rightarrow> jsvalue option" where
  "checkForUpdates_p0 env =
     optional_helper [dashboard_checkForUpdates env, root_checkForUpdates env]"

definition initializeMongoose_p0 :: "env_p0 \<Rightarrow> jsvalue option" where
  "initializeMongoose_p0 env =
     optional_helper [src_initializeMongoose env, root_initializeMongoose env]"

definition validateConfiguration_p0 :: "env_p0 \<Rightarrow> jsvalue option" where
  "validateConfiguration_p0 env =
     optional_helper [config_validateConfiguration env, src_validateConfiguration env,
                      root_validateConfiguration env]"

text \<open>\<^verbatim>\<open>FallbackClient\<close> (lines 85-89): the discord.js client with no-op loaders.\<close>

definition FallbackClient :: "string + client \<Rightarrow> string + client" where
  "FallbackClient base =
     (case base of
        Inl e \<Rightarrow> Inl e
      | Inr c \<Rightarrow> Inr (c\<lparr> loadCommands := Some (Callable (Returns True)),
                         loadEvents := Some (Callable (Returns True)) \<rparr>))"

text \<open>Lines 76-96. The result is the block run and, when the script goes on, the
  value bound to \<^verbatim>\<open>BotClient\<close>.\<close>

definition resolve_BotClient :: "env_p0 \<Rightarrow> block \<times> (string + client) option" where
  "resolve_BotClient env =
     (case require_chain [local_BotClient env, alias_BotClient env] of
        Some ctor \<Rightarrow> (skip, ctor)
      | None \<Rightarrow>
          (case discord_js env of
             None \<Rightarrow>
               (seqs [log_error [''Could not require BotClient from src/client/BotClient. Make sure the file exists and exports { BotClient }.''],
                      log_error [''discord.js not installed. Install discord.js or provide your BotClient implementation.''],
                      process_exit 1], None)
           | Some base \<Rightarrow>
               (seqs [log_error [''Could not require BotClient from src/client/BotClient. Make sure the file exists and exports { BotClient }.''],
                      log_warn [''Using fallback BotClient (discord.js Client). Replace with your actual BotClient implementation.'']],
                Some (FallbackClient base))))"

text \<open>Lines 99-134: the three optional steps share one shape. The validator is
  called without \<^verbatim>\<open>await\<close> (line 101), the other two with it (lines 115, 127).\<close>

definition optional_step ::
  "(string \<Rightarrow> jsvalue option \<Rightarrow> block) \<Rightarrow> string \<Rightarrow> jsvalue option \<Rightarrow> string \<Rightarrow> string
     \<Rightarrow> (string list \<Rightarrow> block) \<Rightarrow> string \<Rightarrow> block" where
  "optional_step caller nm v done absent logf failed =
     try_catch
       (if is_function v then seq (caller nm v) (log_info [done]) else log_info [absent])
       (\<lambda>err. logf [failed, err])"

definition validate_step :: "env_p0 \<Rightarrow> block" where
  "validate_step env =
     optional_step call ''validateConfiguration'' (validateConfiguration_p0 env)
       ''Configuration validated.'' ''No configuration validator found (optional).''
       log_error ''Configuration validation failed:''"

definition update_step :: "env_p0 \<Rightarrow> block" where
  "update_step env =
     optional_step await_call ''checkForUpdates'' (checkForUpdates_p0 env)
       ''Update check complete.'' ''No update checker found (optional).''
       log_warn ''Error while checking for updates (continuing):''"

definition mongoose_step :: "env_p0 \<Rightarrow> block" where
  "mongoose_step env =
     optional_step await_call ''initializeMongoose'' (initializeMongoose_p0 env)
       ''Mongoose initialized.'' ''No mongoose initializer found (skipping DB init).''
       log_warn ''Failed to initialize mongoose (continuing):''"

definition endsWith :: "string \<Rightarrow> string \<Rightarrow> bool" where
  "endsWith s suf = (length suf \<le> length s \<and> drop (length s - length suf) s = suf)"

definition js_files :: "(string \<times> 'a) list \<Rightarrow> (string \<times> 'a) list" where
  "js_files es = filter (\<lambda>e. endsWith (fst e) ''.js'') es"

text \<open>\<^verbatim>\<open>path.basename(file, '.js')\<close> of a directory entry that ends in \<^verbatim>\<open>.js\<close>.\<close>

definition basename_js :: "string \<Rightarrow> string" where
  "basename_js file = take (length file - 3) file"

fun export_name :: "export \<Rightarrow> string option" where
  "export_name Nullish = None"
| "export_name (Func n) = Some n"
| "export_name (Obj n x) = n"

text \<open>The body of the loop of lines 164-174, for one file.\<close>

definition load_command :: "client \<Rightarrow> string \<times> (string + export) \<Rightarrow> block" where
  "load_command c e =
     try_catch
       (seq (emit (Require (''src/commands/'' @ fst e)))
          (case snd e of
             Inl err \<Rightarrow> throw err
           | Inr cmd \<Rightarrow>
               (if is_function (commands_set c) then
                  (if cmd = Nullish then ([TypeError ''cmd.name''], Thrown ''TypeError'')
                   else if truthy (export_name cmd)
                   then invoke (CommandsSet (the (export_name cmd)) (fst e))
                          ''client.commands.set'' (commands_set c)
                   else skip)
                else skip)))
       (\<lambda>err. log_warn [''Failed to load command'', fst e, err])"

definition eventName :: "export \<Rightarrow> string \<Rightarrow> string" where
  "eventName ev file =
     (if truthy (export_name ev) then the (export_name ev) else basename_js file)"

text \<open>The body of the loop of lines 198-211, for one file.\<close>

definition load_event :: "client \<Rightarrow> string \<times> (string + export) \<Rightarrow> block" where
  "load_event c e =
     try_catch
       (seq (emit (Require (''src/events/'' @ fst e)))
          (case snd e of
             Inl err \<Rightarrow> throw err
           | Inr Nullish \<Rightarrow> ([TypeError ''ev.name''], Thrown ''TypeError'')
           | Inr (Func n) \<Rightarrow>
               invoke (ClientOn (eventName (Func n) (fst e)) (fst e)) ''client.on'' (client_on c)
           | Inr (Obj n x) \<Rightarrow>
               (if x
                then invoke (ClientOn (eventName (Obj n x) (fst e)) (fst e)) ''client.on''
                       (client_on c)
                else skip)))
       (\<lambda>err. log_warn [''Failed to load event'', fst e, err])"

text \<open>The directory-scan fallback (lines 161-179 and 195-216): \<open>body\<close> is the loop
  body, run on each \<^verbatim>\<open>.js\<close> entry in turn.\<close>

definition scan ::
  "directory \<Rightarrow> (string \<times> (string + export) \<Rightarrow> block) \<Rightarrow> string \<Rightarrow> string \<Rightarrow> block" where
  "scan dir body done absent =
     (case dir of
        Absent \<Rightarrow> log_info [absent]
      | Unreadable err \<Rightarrow> throw err
      | Entries es \<Rightarrow> seq (seqs (map body (js_files es))) (log_info [done]))"

definition scan_commands :: "env_p0 \<Rightarrow> client \<Rightarrow> block" where
  "scan_commands env c =
     scan (commands_dir env) (load_command c) ''Commands loaded from src/commands (fallback).''
       ''No commands loader found or commands folder not present; skipping commands load.''"

definition scan_events :: "env_p0 \<Rightarrow> client \<Rightarrow> block" where
  "scan_events env c =
     scan (events_dir env) (load_event c) ''Events loaded from src/events (fallback).''
       ''No events loader found or events folder not present; skipping events load.''"

text \<open>Lines 148-180 and 182-217: the client's own loader first; when there is
  none, or it throws, the directory scan.\<close>

definition try_loader :: "string \<Rightarrow> jsvalue option \<Rightarrow> string \<Rightarrow> string \<Rightarrow> block \<Rightarrow> block" where
  "try_loader nm v done threw fallback =
     (if is_function v then
        (case snd (await_call nm v) of
           Normal \<Rightarrow> seq (await_call nm v) (log_info [done])
         | _ \<Rightarrow> seq (try_catch (await_call nm v) (\<lambda>err. log_warn [threw, err])) fallback)
      else fallback)"

definition tryLoadCommands :: "env_p0 \<Rightarrow> client \<Rightarrow> block" where
  "tryLoadCommands env c =
     try_loader ''client.loadCommands'' (loadCommands c)
       ''Commands loaded via client.loadCommands().'' ''client.loadCommands() threw an error:''
       (scan_commands env c)"

definition tryLoadEvents :: "env_p0 \<Rightarrow> client \<Rightarrow> block" where
  "tryLoadEvents env c =
     try_loader ''client.loadEvents'' (loadEvents c)
       ''Events loaded via client.loadEvents().'' ''client.loadEvents() threw an error:''
       (scan_events env c)"

text \<open>Lines 233-242.\<close>

definition registerEvents_step :: "env_p0 \<Rightarrow> client \<Rightarrow> block" where
  "registerEvents_step env c =
     try_catch
       (if registerEvents c \<noteq> None \<and> events_dir env \<noteq> Absent
        then seq (await_call ''client.registerEvents'' (registerEvents c))
                 (log_info [''client.registerEvents(eventsDir) invoked.''])
        else skip)
       (\<lambda>err. skip)"

text \<open>One round of the loop of lines 253-273 for a path that exists: the block
  run, and whether the function returned \<^verbatim>\<open>true\<close> from inside it.\<close>

definition launch_file :: "string \<Rightarrow> string + launcher \<Rightarrow> block \<times> bool" where
  "launch_file p r =
     (let body =
        seq (emit (Require p))
          (case r of
             Inl err \<Rightarrow> throw err
           | Inr (WithLaunch res) \<Rightarrow>
               seq (await_call ''launcher.launch'' (Some (Callable res)))
                   (log_info [''Dashboard launched via'', p])
           | Inr (IsFunction res) \<Rightarrow>
               seq (await_call ''launcher'' (Some (Callable res)))
                   (log_info [''Dashboard launched via'', p])
           | Inr NoLaunch \<Rightarrow> log_warn [''Dashboard file found but no launch function in'', p])
      in (try_catch body (\<lambda>err. log_warn [''Dashboard launcher at'', p, ''failed:'', err]),
          snd body = Normal \<and> r \<noteq> Inr NoLaunch))"

fun launch_loop :: "(string \<times> (string + launcher) option) list \<Rightarrow> block \<times> bool" where
  "launch_loop [] = (skip, False)"
| "launch_loop ((p, None) # ps) = launch_loop ps"
| "launch_loop ((p, Some r) # ps) =
     (if snd (launch_file p r) then launch_file p r
      else (seq (fst (launch_file p r)) (fst (launch_loop ps)), snd (launch_loop ps)))"

definition dashboardLauncherPaths :: "env_p0 \<Rightarrow> (string \<times> (string + launcher) option) list" where
  "dashboardLauncherPaths env =
     [(''dashboard/launcher.js'', dashboard_launcher_js env),
      (''dashboard/index.js'', dashboard_index_js env),
      (''dashboard/server.js'', dashboard_server_js env),
      (''src/dashboard/index.js'', src_dashboard_index_js env)]"

definition has_launch :: "string + launcher \<Rightarrow> bool" where
  "has_launch r = (case r of Inr (WithLaunch res) \<Rightarrow> True | _ \<Rightarrow> False)"

text \<open>Lines 276-288: the fallback \<^verbatim>\<open>require('./dashboard')\<close> and the final log.\<close>

definition launch_package :: "env_p0 \<Rightarrow> block" where
  "launch_package env =
     (let body =
        seq (emit (Require ''./dashboard''))
          (case dashboard_package env of
             Inl err \<Rightarrow> throw err
           | Inr (WithLaunch res) \<Rightarrow>
               seq (await_call ''maybe.launch'' (Some (Callable res)))
                   (log_info [''Dashboard launched via ./dashboard export.''])
           | Inr other \<Rightarrow> skip)
      in if snd body = Normal \<and> has_launch (dashboard_package env)
         then body
         else seq (try_catch body (\<lambda>err. skip))
                (log_info [''No dashboard detected or launcher failed; skipping dashboard start.'']))"

definition tryLaunchDashboard :: "env_p0 \<Rightarrow> block" where
  "tryLaunchDashboard env =
     (if snd (launch_loop (dashboardLauncherPaths env))
      then fst (launch_loop (dashboardLauncherPaths env))
      else seq (fst (launch_loop (dashboardLauncherPaths env))) (launch_package env))"

definition token_p0 :: "env_p0 \<Rightarrow> string option" where
  "token_p0 env = (if truthy (BOT_TOKEN_p0 env) then BOT_TOKEN_p0 env else TOKEN_p0 env)"

text \<open>Lines 298-314.\<close>

definition login_step :: "env_p0 \<Rightarrow> client \<Rightarrow> block" where
  "login_step env c =
     seq (if \<not> truthy (token_p0 env)
          then seq (log_error [''No BOT_TOKEN found in environment. Set BOT_TOKEN in .env or in environment variables.''])
                   (process_exit 1)
          else skip)
         (try_catch
            (if is_function (login c)
             then seq (await_call ''client.login'' (login c))
                      (log_info [''Bot logged in successfully.''])
             else log_error [''client.login is not a function. Ensure your BotClient extends discord.js Client or provides login(token).''])
            (\<lambda>err. seq (log_error [''Failed to login:'', err]) (process_exit 1)))"

text \<open>Lines 220-229 and 291-295: the guarded calls of the three helpers.\<close>

definition commands_step :: "env_p0 \<Rightarrow> client \<Rightarrow> block" where
  "commands_step env c =
     try_catch (tryLoadCommands env c)
       (\<lambda>err. log_warn [''Error while trying to load commands:'', err])"

definition events_step :: "env_p0 \<Rightarrow> client \<Rightarrow> block" where
  "events_step env c =
     try_catch (tryLoadEvents env c)
       (\<lambda>err. log_warn [''Error while trying to load events:'', err])"

definition dashboard_step :: "env_p0 \<Rightarrow> block" where
  "dashboard_step env =
     try_catch (tryLaunchDashboard env)
       (\<lambda>err. log_warn [''Error while attempting to launch dashboard (continuing):'', err])"

text \<open>Lines 137-314, from the construction of the client on.\<close>

definition after_construct_p0 :: "env_p0 \<Rightarrow> client \<Rightarrow> block" where
  "after_construct_p0 env c =
     seqs [emit (ProcessOn ''unhandledRejection''),
           emit (ProcessOn ''uncaughtException''),
           commands_step env c,
           events_step env c,
           registerEvents_step env c,
           dashboard_step env,
           login_step env c]"

definition main_p0 :: "env_p0 \<Rightarrow> block" where
  "main_p0 env =
     seqs [emit DotenvConfig,
           emit (Console Log [''ASCII_BANNER'']),
           fst (resolve_BotClient env),
           validate_step env,
           update_step env,
           mongoose_step env,
           construct (snd (resolve_BotClient env)) (after_construct_p0 env)]"

text \<open>The two handlers of lines 140-145:
  \<^verbatim>\<open>client?.logger?.error?.(label, x) || log.error(label, x)\<close>.\<close>

definition handler_p0 :: "string \<Rightarrow> client \<Rightarrow> string \<Rightarrow> block" where
  "handler_p0 label c x =
     (case logger c of
        None \<Rightarrow> log_error [label, x]
      | Some l \<Rightarrow>
          (case logger_error l of
             None \<Rightarrow> log_error [label, x]
           | Some (Callable (Returns b)) \<Rightarrow>
               seq (emit (LoggerCall Error [label, x])) (if b then skip else log_error [label, x])
           | Some v \<Rightarrow> invoke (LoggerCall Error [label, x]) ''client.logger.error'' (Some v)))"

definition unhandledRejection_p0 :: "client \<Rightarrow> string \<Rightarrow> block" where
  "unhandledRejection_p0 c reason = handler_p0 ''Unhandled Rejection:'' c reason"

definition uncaughtException_p0 :: "client \<Rightarrow> string \<Rightarrow> block" where
  "uncaughtException_p0 c err = handler_p0 ''Uncaught Exception:'' c err"

subsection \<open>Observations on a run\<close>

text \<open>The startup steps the specification names, read off the events: a step is
  seen when its collaborator is invoked or its effect on the client happens.\<close>

datatype step =
  EnvLoad | Banner | Validation | UpdateCheck | Dashboard | Database | Commands | Events | Login

definition call_step :: "string \<Rightarrow> step option" where
  "call_step nm =
     (if nm = ''validateConfiguration'' then Some Validation
      else if nm = ''checkForUpdates'' then Some UpdateCheck
      else if nm = ''initializeMongoose'' then Some Database
      else if nm = ''dashboardLauncher.launch'' \<or> nm = ''launcher.launch''
              \<or> nm = ''launcher'' \<or> nm = ''maybe.launch'' then Some Dashboard
      else if nm = ''client.loadCommands'' \<or> nm = ''client.loadCommandTests'' then Some Commands
      else if nm = ''client.loadEvents'' \<or> nm = ''client.registerEvents'' then Some Events
      else if nm = ''client.login'' then Some Login
      else None)"

definition step_of :: "event \<Rightarrow> step option" where
  "step_of e =
     (case e of
        DotenvConfig \<Rightarrow> Some EnvLoad
      | Console lv args \<Rightarrow>
          (if lv = Log \<and> (args = [''STATIC_ASCII_BANNER''] \<or> args = [''ASCII_BANNER''])
           then Some Banner else None)
      | Call nm \<Rightarrow> call_step nm
      | CommandsSet n f \<Rightarrow> Some Commands
      | ClientOn n f \<Rightarrow> Some Events
      | _ \<Rightarrow> None)"

fun steps :: "event list \<Rightarrow> step list" where
  "steps [] = []"
| "steps (e # es) = (case step_of e of None \<Rightarrow> steps es | Some s \<Rightarrow> s # steps es)"

text \<open>The order the specification states (section 2, control flow).\<close>

fun spec_rank :: "step \<Rightarrow> nat" where
  "spec_rank EnvLoad = 0"
| "spec_rank Banner = 1"
| "spec_rank Validation = 2"
| "spec_rank UpdateCheck = 3"
| "spec_rank Dashboard = 4"
| "spec_rank Database = 4"
| "spec_rank Commands = 5"
| "spec_rank Events = 5"
| "spec_rank Login = 6"

text \<open>The order of the statements of bot.js.\<close>

fun bot_rank :: "step \<Rightarrow> nat" where
  "bot_rank EnvLoad = 0"
| "bot_rank Banner = 1"
| "bot_rank Validation = 2"
| "bot_rank Commands = 3"
| "bot_rank Events = 4"
| "bot_rank UpdateCheck = 5"
| "bot_rank Dashboard = 6"
| "bot_rank Database = 6"
| "bot_rank Login = 7"

text \<open>The order of the statements of part_000.\<close>

fun p0_rank :: "step \<Rightarrow> nat" where
  "p0_rank EnvLoad = 0"
| "p0_rank Banner = 1"
| "p0_rank Validation = 2"
| "p0_rank UpdateCheck = 3"
| "p0_rank Database = 4"
| "p0_rank Commands = 5"
| "p0_rank Events = 6"
| "p0_rank Dashboard = 7"
| "p0_rank Login = 8"

definition in_order :: "(step \<Rightarrow> nat) \<Rightarrow> block \<Rightarrow> bool" where
  "in_order rank b = sorted (map rank (steps (fst b)))"

text \<open>The names under which a run registers process-wide handlers.\<close>

fun installs :: "event list \<Rightarrow> string list" where
  "installs [] = []"
| "installs (ProcessOn nm # es) = nm # installs es"
| "installs (e # es) = installs es"

definition login_invoked :: "block \<Rightarrow> bool" where
  "login_invoked b = (Call ''client.login'' \<in> set (fst b))"

definition exit_called :: "block \<Rightarrow> bool" where
  "exit_called b = (\<exists>e \<in> set (fst b). case e of ProcessExit n \<Rightarrow> True | _ \<Rightarrow> False)"




fun is_warning :: "event \<Rightarrow> bool" where
  "is_warning (Console Warn args) = True"
| "is_warning e = False"

fun is_require :: "event \<Rightarrow> bool" where
  "is_require (Require p) = True"
| "is_require e = False"

fun is_registration :: "event \<Rightarrow> bool" where
  "is_registration (CommandsSet n f) = True"
| "is_registration (ClientOn n f) = True"
| "is_registration e = False"

definition count :: "(event \<Rightarrow> bool) \<Rightarrow> block \<Rightarrow> nat" where
  "count P b = length (filter P (fst b))"

text \<open>Of a directory entry: \<^verbatim>\<open>require\<close> threw; the command loop registers it;
  the command loop's body throws on it; likewise for the event loop.\<close>

definition fails_to_load :: "string \<times> (string + export) \<Rightarrow> bool" where
  "fails_to_load e = (case snd e of Inl err \<Rightarrow> True | Inr x \<Rightarrow> False)"

definition exports_nothing :: "string \<times> (string + export) \<Rightarrow> bool" where
  "exports_nothing e = (case snd e of Inl err \<Rightarrow> False | Inr x \<Rightarrow> x = Nullish)"

definition named_command :: "string \<times> (string + export) \<Rightarrow> bool" where
  "named_command e = (case snd e of Inl err \<Rightarrow> False | Inr x \<Rightarrow> truthy (export_name x))"

definition bindable_event :: "string \<times> (string + export) \<Rightarrow> bool" where
  "bindable_event e =
     (case snd e of Inr (Func n) \<Rightarrow> True | Inr (Obj n x) \<Rightarrow> x | _ \<Rightarrow> False)"

text \<open>The \<^verbatim>\<open>error\<close> method the handlers look for:
  \<^verbatim>\<open>client && client.logger && client.logger.error\<close>.\<close>

definition error_logger :: "client option \<Rightarrow> jsvalue option" where
  "error_logger c =
     (case c of
        None \<Rightarrow> None
      | Some cl \<Rightarrow> (case logger cl of None \<Rightarrow> None | Some l \<Rightarrow> logger_error l))"

text \<open>Properties of a block: all its events satisfy \<open>P\<close>; it does not end the
  process; it falls through.\<close>

definition events_ok :: "(event \<Rightarrow> bool) \<Rightarrow> block \<Rightarrow> bool" where
  "events_ok P b = (\<forall>e \<in> set (fst b). P e)"

definition no_exit :: "block \<Rightarrow> bool" where
  "no_exit b = (\<forall>n. snd b \<noteq> Exited n)"

definition normal :: "block \<Rightarrow> bool" where
  "normal b = (snd b = Normal)"

text \<open>Events other than the ones that mark the backbone of a run: the exit, the
  login, the construction of the client and the registration of handlers.\<close>

definition benign :: "event \<Rightarrow> bool" where
  "benign e =
     (case e of
        ProcessExit n \<Rightarrow> False
      | ProcessOn nm \<Rightarrow> False
      | New nm \<Rightarrow> False
      | DotenvConfig \<Rightarrow> False
      | Call nm \<Rightarrow> nm \<noteq> ''client.login''
      | _ \<Rightarrow> True)"

text \<open>A run that never invokes \<^verbatim>\<open>login\<close> and ends with \<^verbatim>\<open>process.exit(1)\<close>, or
  with an exception that escapes the main function before any process-wide
  handler is registered.\<close>

definition ends_before_login :: "block \<Rightarrow> bool" where
  "ends_before_login b =
     (\<not> login_invoked b \<and>
      (case snd b of
         Exited n \<Rightarrow> n = 1
       | Thrown e \<Rightarrow> ProcessOn ''unhandledRejection'' \<notin> set (fst b)
       | Normal \<Rightarrow> False))"

text \<open>The branch of bot.js lines 317-363, and the events that only it produces.\<close>

definition branch_event :: "event \<Rightarrow> bool" where
  "branch_event e =
     (e = Require ''@root/dashboard/launch'' \<or> e = Call ''initializeMongoose''
      \<or> e = TypeError ''initializeMongoose'')"


text \<open>An event is at rank \<open>k\<close> when it marks no step or a step of that rank; a
  block is ranked between \<open>lo\<close> and \<open>hi\<close> when the steps it performs come in
  non-decreasing rank within these bounds.\<close>

definition at_rank :: "(step \<Rightarrow> nat) \<Rightarrow> nat \<Rightarrow> event \<Rightarrow> bool" where
  "at_rank rank k e = (case step_of e of None \<Rightarrow> True | Some s \<Rightarrow> rank s = k)"

definition ranked :: "(step \<Rightarrow> nat) \<Rightarrow> nat \<Rightarrow> nat \<Rightarrow> block \<Rightarrow> bool" where
  "ranked rank lo hi b =
     (sorted (map rank (steps (fst b)))
      \<and> (\<forall>s \<in> set (steps (fst b)). lo \<le> rank s \<and> rank s \<le> hi))"

text \<open>Completion. An awaited call leaves its \<open>Call\<close> and then its \<open>Settled\<close>; a
  call that the script does not await leaves only the \<open>Call\<close>. A call is
  settled first when its \<open>Settled\<close> comes before any other call and before any
  event of a step; \<open>unawaited\<close> lists the calls of a trace that are not.\<close>

fun settled_first :: "string \<Rightarrow> event list \<Rightarrow> bool" where
  "settled_first nm [] = False"
| "settled_first nm (e # es) =
     (case e of
        Settled m \<Rightarrow> m = nm
      | Call m \<Rightarrow> False
      | _ \<Rightarrow> step_of e = None \<and> settled_first nm es)"

fun unawaited :: "event list \<Rightarrow> string list" where
  "unawaited [] = []"
| "unawaited (e # es) =
     (case e of
        Call nm \<Rightarrow> (if settled_first nm es then unawaited es else nm # unawaited es)
      | _ \<Rightarrow> unawaited es)"

definition awaits :: "string set \<Rightarrow> block \<Rightarrow> bool" where
  "awaits S b = (set (unawaited (fst b)) \<subseteq> S)"

text \<open>The events that only record something: a line on the console or a call of
  a method of the client's logger.\<close>

definition recording :: "event \<Rightarrow> bool" where
  "recording e = (case e of Console lv args \<Rightarrow> True | LoggerCall lv args \<Rightarrow> True | _ \<Rightarrow> False)"

subsection \<open>Concrete environments\<close>

text \<open>bot.js with none of its optional modules present and a token set.\<close>

definition env_bot0 :: env_bot where
  "env_bot0 =
     \<lparr> BOT_TOKEN = Some ''abc123'',
       botUtils_checkForUpdates = Missing,
       mongoose_initializeMongoose = Missing,
       core_BotClient = Missing,
       validateConfiguration_module = Missing,
       dashboard_launch = Missing,
       figlet_textSync = Missing \<rparr>"

text \<open>A client with a working logger, registry and event emitter, no loaders of
  its own and no \<open>login\<close>.\<close>

definition bare_client :: client where
  "bare_client =
     \<lparr> config = Some (Some True),
       logger = Some \<lparr> logger_log = Some (Callable (Returns False)),
                      logger_warn = Some (Callable (Returns False)),
                      logger_error = Some (Callable (Returns False)) \<rparr>,
       loadCommands = None,
       loadCommandTests = None,
       loadEvents = None,
       registerEvents = None,
       commands_set = Some (Callable (Returns True)),
       client_on = Some (Callable (Returns True)),
       login = None \<rparr>"

text \<open>The same client with a logger whose \<open>error\<close> throws.\<close>

definition throwing_client :: client where
  "throwing_client =
     bare_client\<lparr> logger := Some \<lparr> logger_log = None, logger_warn = None,
                                   logger_error = Some (Callable (Throws ''logger down'')) \<rparr> \<rparr>"

text \<open>part_000 with a BotClient module that constructs \<open>bare_client\<close>, nothing
  else present and a token set.\<close>

definition env_p00 :: env_p0 where
  "env_p00 =
     \<lparr> BOT_TOKEN_p0 = Some ''abc123'',
       TOKEN_p0 = None,
       dashboard_checkForUpdates = Missing,
       root_checkForUpdates = Missing,
       src_initializeMongoose = Missing,
       root_initializeMongoose = Missing,
       config_validateConfiguration = Missing,
       src_validateConfiguration = Missing,
       root_validateConfiguration = Missing,
       local_BotClient = Exports (Some (Inr bare_client)),
       alias_BotClient = Missing,
       discord_js = None,
       commands_dir = Absent,
       events_dir = Absent,
       dashboard_launcher_js = None,
       dashboard_index_js = None,
       dashboard_server_js = None,
       src_dashboard_index_js = None,
       dashboard_package = Inl ''MODULE_NOT_FOUND'' \<rparr>"

text \<open>part_000 with directories to scan: one command file that exports no name;
  a mix of files that load, fail to load and are no script.\<close>

definition env_unnamed_command :: env_p0 where
  "env_unnamed_command =
     env_p00\<lparr>commands_dir := Entries [(''ping.js'', Inr (Obj None True))]\<rparr>"

definition mixed_commands :: "(string \<times> (string + export)) list" where
  "mixed_commands =
     [(''ping.js'', Inr (Obj (Some ''ping'') True)),
      (''broken.js'', Inl ''SyntaxError''),
      (''README.md'', Inl ''not a module''),
      (''help.js'', Inr (Func ''help''))]"

definition mixed_events :: "(string \<times> (string + export)) list" where
  "mixed_events =
     [(''ready.js'', Inr (Func ''ready'')),
      (''broken.js'', Inl ''SyntaxError'')]"

definition env_mixed_dirs :: env_p0 where
  "env_mixed_dirs =
     env_p00\<lparr>commands_dir := Entries mixed_commands, events_dir := Entries mixed_events\<rparr>"

text \<open>part_000 with every optional helper present and working, a client with its
  own loaders and \<open>login\<close>, and a dashboard launcher.\<close>

definition full_client :: client where
  "full_client =
     bare_client\<lparr> loadCommands := Some (Callable (Returns False)),
                  loadEvents := Some (Callable (Returns False)),
                  login := Some (Callable (Returns True)) \<rparr>"

definition env_p0_full :: env_p0 where
  "env_p0_full =
     env_p00\<lparr> config_validateConfiguration := Exports (Some (Callable (Returns False))),
              dashboard_checkForUpdates := Exports (Some (Callable (Returns False))),
              src_initializeMongoose := Exports (Some (Callable (Returns False))),
              local_BotClient := Exports (Some (Inr full_client)),
              dashboard_index_js := Some (Inr (WithLaunch (Returns True))) \<rparr>"

definition failing :: "jsvalue module" where
  "failing = Exports (Some (Callable (Throws ''boom'')))"


section \<open>Control-flow lemmas\<close>

lemma fst_skip [simp]: "fst skip = []" and snd_skip [simp]: "snd skip = Normal"
  by (simp_all add: skip_def)

lemma fst_emit [simp]: "fst (emit e) = [e]" and snd_emit [simp]: "snd (emit e) = Normal"
  by (simp_all add: emit_def)

lemma fst_throw [simp]: "fst (throw e) = []" and snd_throw [simp]: "snd (throw e) = Thrown e"
  by (simp_all add: throw_def)

lemma fst_process_exit [simp]: "fst (process_exit n) = [ProcessExit n]"
  and snd_process_exit [simp]: "snd (process_exit n) = Exited n"
  by (simp_all add: process_exit_def)

lemma fst_seq: "fst (seq a b) = (if snd a = Normal then fst a @ fst b else fst a)"
  by (simp add: seq_def split: status.splits)

lemma snd_seq: "snd (seq a b) = (if snd a = Normal then snd b else snd a)"
  by (simp add: seq_def split: status.splits)

lemma fst_try_catch:
  "fst (try_catch a h) = (case snd a of Thrown e \<Rightarrow> fst a @ fst (h e) | _ \<Rightarrow> fst a)"
  by (simp add: try_catch_def split: status.splits)

lemma snd_try_catch:
  "snd (try_catch a h) = (case snd a of Thrown e \<Rightarrow> snd (h e) | s \<Rightarrow> s)"
  by (simp add: try_catch_def split: status.splits)

lemma fst_log [simp]:
  "fst (log_info args) = [Console Log (''[INFO]'' # args)]"
  "fst (log_warn args) = [Console Warn (''[WARN]'' # args)]"
  "fst (log_error args) = [Console Error (''[ERROR]'' # args)]"
  by (simp_all add: log_info_def log_warn_def log_error_def)

lemma snd_log [simp]:
  "snd (log_info args) = Normal" "snd (log_warn args) = Normal" "snd (log_error args) = Normal"
  by (simp_all add: log_info_def log_warn_def log_error_def)

lemma invoke_cases:
  "(invoke ev nm v = ([ev], Normal) \<and> is_function v)
   \<or> ((\<exists>e. invoke ev nm v = ([ev], Thrown e)) \<and> is_function v)
   \<or> (invoke ev nm v = ([TypeError nm], Thrown ''TypeError'') \<and> \<not> is_function v)"
  by (simp add: invoke_def is_function_def split: option.splits jsvalue.splits result.splits)

lemma invoke_function:
  "is_function v \<Longrightarrow> fst (invoke ev nm v) = [ev]"
  using invoke_cases [of ev nm v] by auto

lemma invoke_not_exited [simp]: "snd (invoke ev nm v) \<noteq> Exited n"
  using invoke_cases [of ev nm v] by auto

lemma await_call_cases:
  "(await_call nm v = ([Call nm, Settled nm], Normal) \<and> is_function v)
   \<or> ((\<exists>e. await_call nm v = ([Call nm, Settled nm], Thrown e)) \<and> is_function v)
   \<or> (await_call nm v = ([TypeError nm], Thrown ''TypeError'') \<and> \<not> is_function v)"
  by (simp add: await_call_def is_function_def split: option.splits jsvalue.splits result.splits)


lemma events_ok_skip: "events_ok P skip"
  by (simp add: events_ok_def)

lemma events_ok_emit: "P e \<Longrightarrow> events_ok P (emit e)"
  by (simp add: events_ok_def)

lemma events_ok_throw: "events_ok P (throw e)"
  by (simp add: events_ok_def)

lemma events_ok_process_exit: "P (ProcessExit n) \<Longrightarrow> events_ok P (process_exit n)"
  by (simp add: events_ok_def)

lemma events_ok_seq: "events_ok P a \<Longrightarrow> events_ok P b \<Longrightarrow> events_ok P (seq a b)"
  by (auto simp: events_ok_def fst_seq)

lemma events_ok_try_catch:
  "events_ok P a \<Longrightarrow> (\<And>e. events_ok P (h e)) \<Longrightarrow> events_ok P (try_catch a h)"
  by (auto simp: events_ok_def fst_try_catch split: status.splits)

lemma events_ok_seqs: "(\<And>b. b \<in> set bs \<Longrightarrow> events_ok P b) \<Longrightarrow> events_ok P (seqs bs)"
  by (induction bs) (simp_all add: events_ok_skip events_ok_seq)

lemma events_ok_invoke: "P ev \<Longrightarrow> P (TypeError nm) \<Longrightarrow> events_ok P (invoke ev nm v)"
  using invoke_cases [of ev nm v] by (auto simp: events_ok_def)

lemma events_ok_call: "P (Call nm) \<Longrightarrow> P (TypeError nm) \<Longrightarrow> events_ok P (call nm v)"
  by (simp add: call_def events_ok_invoke)

lemma events_ok_await_call:
  "P (Call nm) \<Longrightarrow> P (Settled nm) \<Longrightarrow> P (TypeError nm) \<Longrightarrow> events_ok P (await_call nm v)"
  using await_call_cases [of nm v] by (auto simp: events_ok_def)

lemma events_ok_guarded_log:
  "P (LoggerCall lv args) \<Longrightarrow> P (TypeError (level_name lv)) \<Longrightarrow> events_ok P (guarded_log c lv args)"
  by (simp add: guarded_log_def events_ok_skip events_ok_invoke split: option.splits)

lemma events_ok_log:
  "P (Console Log (''[INFO]'' # args)) \<Longrightarrow> events_ok P (log_info args)"
  "P (Console Warn (''[WARN]'' # args)) \<Longrightarrow> events_ok P (log_warn args)"
  "P (Console Error (''[ERROR]'' # args)) \<Longrightarrow> events_ok P (log_error args)"
  by (simp_all add: events_ok_def)

lemmas events_ok_intros =
  events_ok_skip events_ok_emit events_ok_throw events_ok_process_exit events_ok_seq
  events_ok_try_catch events_ok_invoke events_ok_call events_ok_await_call events_ok_guarded_log
  events_ok_log

lemma no_exit_simple: "no_exit skip" "no_exit (emit e)" "no_exit (throw x)"
  "no_exit (es, Normal)" "no_exit (es, Thrown x)"
  "no_exit (log_info args)" "no_exit (log_warn args)" "no_exit (log_error args)"
  by (simp_all add: no_exit_def)

lemma no_exit_seq: "no_exit a \<Longrightarrow> no_exit b \<Longrightarrow> no_exit (seq a b)"
  by (simp add: no_exit_def snd_seq)

lemma no_exit_try_catch: "no_exit a \<Longrightarrow> (\<And>e. no_exit (h e)) \<Longrightarrow> no_exit (try_catch a h)"
  by (auto simp: no_exit_def snd_try_catch split: status.splits)

lemma no_exit_seqs: "(\<And>b. b \<in> set bs \<Longrightarrow> no_exit b) \<Longrightarrow> no_exit (seqs bs)"
  by (induction bs) (simp_all add: no_exit_simple no_exit_seq)

lemma no_exit_invoke: "no_exit (invoke ev nm v)"
  using invoke_cases [of ev nm v] by (auto simp: no_exit_def)

lemma no_exit_call: "no_exit (call nm v)"
  by (simp add: call_def no_exit_invoke)

lemma no_exit_await_call: "no_exit (await_call nm v)"
  using await_call_cases [of nm v] by (auto simp: no_exit_def)

lemma no_exit_guarded_log: "no_exit (guarded_log c lv args)"
  by (simp add: guarded_log_def no_exit_simple no_exit_invoke split: option.splits)

lemmas no_exit_intros =
  no_exit_simple no_exit_seq no_exit_try_catch no_exit_invoke no_exit_call no_exit_await_call
  no_exit_guarded_log

lemma normal_simple: "normal skip" "normal (emit e)"
  "normal (log_info args)" "normal (log_warn args)" "normal (log_error args)"
  by (simp_all add: normal_def)

lemma normal_seq: "normal a \<Longrightarrow> normal b \<Longrightarrow> normal (seq a b)"
  by (simp add: normal_def snd_seq)

lemma normal_try_catch: "no_exit a \<Longrightarrow> (\<And>e. normal (h e)) \<Longrightarrow> normal (try_catch a h)"
  by (simp add: normal_def no_exit_def snd_try_catch split: status.splits)

lemma normal_seqs: "(\<And>b. b \<in> set bs \<Longrightarrow> normal b) \<Longrightarrow> normal (seqs bs)"
  by (induction bs) (simp_all add: normal_simple normal_seq)

lemma normal_no_exit: "normal b \<Longrightarrow> no_exit b"
  by (simp add: normal_def no_exit_def)

lemmas normal_intros = normal_simple normal_seq normal_try_catch

subsection \<open>The blocks of part_000 never end the process on their own\<close>

lemma normal_optional_step:
  "no_exit (caller nm v) \<Longrightarrow> (\<And>args. normal (logf args)) \<Longrightarrow>
   normal (optional_step caller nm v d a logf f)"
  unfolding optional_step_def by (rule normal_try_catch) (auto intro!: no_exit_intros)

lemma normal_steps: "normal (validate_step env)" "normal (update_step env)" "normal (mongoose_step env)"
  by (simp_all add: validate_step_def update_step_def mongoose_step_def normal_optional_step
        normal_simple no_exit_call no_exit_await_call)

lemma normal_load_command: "normal (load_command c e)"
  unfolding load_command_def
  by (rule normal_try_catch) (auto intro!: no_exit_intros normal_intros split: sum.splits)

lemma normal_load_event: "normal (load_event c e)"
  unfolding load_event_def
  by (rule normal_try_catch) (auto intro!: no_exit_intros normal_intros split: sum.splits export.splits)

lemma no_exit_scan: "(\<And>e. normal (body e)) \<Longrightarrow> no_exit (scan dir body d a)"
  unfolding scan_def
  by (auto intro!: no_exit_intros no_exit_seqs simp: normal_no_exit split: directory.splits)

lemma no_exit_try_loader: "no_exit fb \<Longrightarrow> no_exit (try_loader nm v d t fb)"
  unfolding try_loader_def
  by (auto intro!: no_exit_intros split: status.splits)

lemma no_exit_tryLoad: "no_exit (tryLoadCommands env c)" "no_exit (tryLoadEvents env c)"
  by (simp_all add: tryLoadCommands_def tryLoadEvents_def scan_commands_def scan_events_def
        no_exit_try_loader no_exit_scan normal_load_command normal_load_event)

lemma normal_registerEvents_step: "normal (registerEvents_step env c)"
  unfolding registerEvents_step_def
  by (rule normal_try_catch) (auto intro!: no_exit_intros normal_intros)

lemma no_exit_launch_file: "no_exit (fst (launch_file p r))"
  unfolding launch_file_def Let_def
  by (auto intro!: no_exit_intros split: sum.splits launcher.splits)

lemma no_exit_launch_loop: "no_exit (fst (launch_loop ps))"
  by (induction ps rule: launch_loop.induct)
     (auto simp: no_exit_simple no_exit_launch_file intro!: no_exit_seq)

lemma no_exit_launch_package: "no_exit (launch_package env)"
  unfolding launch_package_def Let_def
  by (auto intro!: no_exit_intros split: sum.splits launcher.splits)

lemma no_exit_tryLaunchDashboard: "no_exit (tryLaunchDashboard env)"
  unfolding tryLaunchDashboard_def
  by (auto intro!: no_exit_seq no_exit_launch_loop no_exit_launch_package)

subsection \<open>Events of the blocks of part_000\<close>

lemma benign_simps [simp]:
  "benign (Console lv args)" "benign (LoggerCall lv args)" "benign (TypeError nm)"
  "benign (Settled nm)"
  "benign (Require p)" "benign (CommandsSet n f)" "benign (ClientOn n f)"
  "benign (Call nm) = (nm \<noteq> ''client.login'')"
  "\<not> benign (ProcessExit k)" "\<not> benign (ProcessOn nm)" "\<not> benign (New nm)" "\<not> benign DotenvConfig"
  by (simp_all add: benign_def)

lemma events_ok_pair: "(\<And>e. e \<in> set es \<Longrightarrow> P e) \<Longrightarrow> events_ok P (es, st)"
  by (simp add: events_ok_def)

lemma benign_optional_step:
  "events_ok benign (caller nm v) \<Longrightarrow> (\<And>args. events_ok benign (logf args)) \<Longrightarrow>
   events_ok benign (optional_step caller nm v d a logf f)"
  unfolding optional_step_def by (auto intro!: events_ok_intros)

lemma benign_steps:
  "events_ok benign (validate_step env)" "events_ok benign (update_step env)"
  "events_ok benign (mongoose_step env)"
  by (auto simp: validate_step_def update_step_def mongoose_step_def
      intro!: benign_optional_step events_ok_intros)

lemma benign_load_command: "events_ok benign (load_command c e)"
  unfolding load_command_def
  by (auto intro!: events_ok_intros events_ok_pair split: sum.splits)

lemma benign_load_event: "events_ok benign (load_event c e)"
  unfolding load_event_def
  by (auto intro!: events_ok_intros events_ok_pair split: sum.splits export.splits)

lemma benign_scan: "(\<And>e. events_ok benign (body e)) \<Longrightarrow> events_ok benign (scan dir body d a)"
  unfolding scan_def
  by (auto intro!: events_ok_intros events_ok_seqs split: directory.splits)

lemma benign_try_loader:
  "nm \<noteq> ''client.login'' \<Longrightarrow> events_ok benign fb \<Longrightarrow> events_ok benign (try_loader nm v d t fb)"
  unfolding try_loader_def
  by (auto intro!: events_ok_intros split: status.splits)

lemma benign_commands_step: "events_ok benign (commands_step env c)"
  unfolding commands_step_def tryLoadCommands_def scan_commands_def
  by (auto intro!: events_ok_intros benign_try_loader benign_scan benign_load_command)

lemma benign_events_step: "events_ok benign (events_step env c)"
  unfolding events_step_def tryLoadEvents_def scan_events_def
  by (auto intro!: events_ok_intros benign_try_loader benign_scan benign_load_event)

lemma benign_registerEvents_step: "events_ok benign (registerEvents_step env c)"
  unfolding registerEvents_step_def
  by (auto intro!: events_ok_intros)

lemma benign_launch_file: "events_ok benign (fst (launch_file p r))"
  unfolding launch_file_def Let_def
  by (auto intro!: events_ok_intros split: sum.splits launcher.splits)

lemma benign_launch_loop: "events_ok benign (fst (launch_loop ps))"
  by (induction ps rule: launch_loop.induct)
     (auto simp: events_ok_skip benign_launch_file intro!: events_ok_seq)

lemma benign_launch_package: "events_ok benign (launch_package env)"
  unfolding launch_package_def Let_def
  by (auto intro!: events_ok_intros split: sum.splits launcher.splits)

lemma benign_dashboard_step: "events_ok benign (dashboard_step env)"
  unfolding dashboard_step_def tryLaunchDashboard_def
  by (auto intro!: events_ok_intros benign_launch_loop benign_launch_package)

lemma normal_commands_step: "normal (commands_step env c)"
  unfolding commands_step_def
  by (auto intro!: normal_intros no_exit_tryLoad)

lemma normal_events_step: "normal (events_step env c)"
  unfolding events_step_def
  by (auto intro!: normal_intros no_exit_tryLoad)

lemma normal_dashboard_step: "normal (dashboard_step env)"
  unfolding dashboard_step_def
  by (auto intro!: normal_intros no_exit_tryLaunchDashboard)

lemma resolve_cases:
  "(resolve_BotClient env = ((fst (resolve_BotClient env)), None)
      \<and> snd (fst (resolve_BotClient env)) = Exited 1
      \<and> require_chain [local_BotClient env, alias_BotClient env] = None \<and> discord_js env = None)
   \<or> (normal (fst (resolve_BotClient env)) \<and> events_ok benign (fst (resolve_BotClient env)))"
  by (auto simp: resolve_BotClient_def normal_def events_ok_def fst_seq snd_seq
        split: option.splits)

lemma resolve_Some:
  "snd (resolve_BotClient env) = Some ctor \<Longrightarrow>
   normal (fst (resolve_BotClient env)) \<and> events_ok benign (fst (resolve_BotClient env))"
  by (auto simp: resolve_BotClient_def normal_def events_ok_def fst_seq snd_seq
        split: option.splits)

subsection \<open>The shape of a run of part_000\<close>

lemmas snd_steps =
  normal_steps [unfolded normal_def] normal_commands_step [unfolded normal_def]
  normal_events_step [unfolded normal_def] normal_registerEvents_step [unfolded normal_def]
  normal_dashboard_step [unfolded normal_def]

lemma seq_stop: "snd a \<noteq> Normal \<Longrightarrow> seq a b = a"
  by (cases a) (auto simp: seq_def split: status.splits)

lemma exit_called_iff: "exit_called b = (\<exists>n. ProcessExit n \<in> set (fst b))"
proof
  assume "exit_called b"
  then obtain e where mem: "e \<in> set (fst b)"
    and ex: "case e of ProcessExit n \<Rightarrow> True | _ \<Rightarrow> False"
    unfolding exit_called_def by blast
  have "\<exists>n. e = ProcessExit n" using ex by (cases e) simp_all
  with mem show "\<exists>n. ProcessExit n \<in> set (fst b)" by blast
next
  assume "\<exists>n. ProcessExit n \<in> set (fst b)"
  then show "exit_called b" unfolding exit_called_def by force
qed

lemma benign_elims: "benign (ProcessExit n) \<Longrightarrow> R" "benign (Call ''client.login'') \<Longrightarrow> R"
  "benign (ProcessOn nm) \<Longrightarrow> R"
  by simp_all

lemma benign_no_exit_called: "events_ok benign b \<Longrightarrow> \<not> exit_called b"
  by (auto simp: exit_called_iff events_ok_def)

lemma benign_no_login: "events_ok benign b \<Longrightarrow> \<not> login_invoked b"
  by (auto simp: login_invoked_def events_ok_def)

lemma benign_no_handler: "events_ok benign b \<Longrightarrow> ProcessOn nm \<notin> set (fst b)"
  by (auto simp: events_ok_def)

lemma events_ok_append: "events_ok P (xs @ ys, st) = (events_ok P (xs, st) \<and> events_ok P (ys, st))"
  by (auto simp: events_ok_def)

lemma main_p0_fst:
  "normal (fst (resolve_BotClient env)) \<Longrightarrow>
   fst (main_p0 env) =
     DotenvConfig # Console Log [''ASCII_BANNER''] # fst (fst (resolve_BotClient env))
       @ fst (validate_step env) @ fst (update_step env) @ fst (mongoose_step env)
       @ fst (construct (snd (resolve_BotClient env)) (after_construct_p0 env))"
  by (simp add: main_p0_def fst_seq snd_seq snd_steps normal_def)

lemma main_p0_snd:
  "normal (fst (resolve_BotClient env)) \<Longrightarrow>
   snd (main_p0 env) = snd (construct (snd (resolve_BotClient env)) (after_construct_p0 env))"
  by (simp add: main_p0_def fst_seq snd_seq snd_steps normal_def)

lemma main_p0_unresolved:
  "\<not> normal (fst (resolve_BotClient env)) \<Longrightarrow>
   main_p0 env =
     ([DotenvConfig, Console Log [''ASCII_BANNER''],
       Console Error [''[ERROR]'', ''Could not require BotClient from src/client/BotClient. Make sure the file exists and exports { BotClient }.''],
       Console Error [''[ERROR]'', ''discord.js not installed. Install discord.js or provide your BotClient implementation.''],
       ProcessExit 1], Exited 1)"
  by (auto simp: main_p0_def resolve_BotClient_def normal_def seq_def emit_def skip_def log_error_def
        log_warn_def process_exit_def
        split: option.splits)

lemma after_construct_p0_fst:
  "fst (after_construct_p0 env c) =
     ProcessOn ''unhandledRejection'' # ProcessOn ''uncaughtException''
       # fst (commands_step env c) @ fst (events_step env c) @ fst (registerEvents_step env c)
       @ fst (dashboard_step env) @ fst (login_step env c)"
  by (simp add: after_construct_p0_def fst_seq snd_seq snd_steps)

lemma after_construct_p0_snd:
  "snd (after_construct_p0 env c) = snd (login_step env c)"
  by (simp add: after_construct_p0_def fst_seq snd_seq snd_steps)

lemma construct_Inr:
  "construct (Some (Inr c)) k = (New ''BotClient'' # fst (k c), snd (k c))"
  by (simp add: construct_def seq_def emit_def)

lemma construct_fails:
  "ctor = None \<or> (\<exists>e. ctor = Some (Inl e)) \<Longrightarrow>
   (\<exists>e. snd (construct ctor k) = Thrown e) \<and> login_invoked (construct ctor k) = False
   \<and> (\<forall>nm. ProcessOn nm \<notin> set (fst (construct ctor k)))"
  by (auto simp: construct_def login_invoked_def)

lemma login_step_no_token:
  "\<not> truthy (token_p0 env) \<Longrightarrow>
   login_step env c =
     ([Console Error [''[ERROR]'', ''No BOT_TOKEN found in environment. Set BOT_TOKEN in .env or in environment variables.''],
       ProcessExit 1], Exited 1)"
  by (simp add: login_step_def seq_def log_error_def emit_def process_exit_def)

lemma login_step_no_function:
  "truthy (token_p0 env) \<Longrightarrow> \<not> is_function (login c) \<Longrightarrow>
   login_step env c =
     ([Console Error [''[ERROR]'', ''client.login is not a function. Ensure your BotClient extends discord.js Client or provides login(token).'']],
      Normal)"
  by (simp add: login_step_def seq_def log_error_def emit_def skip_def try_catch_def)

lemma benign_middle_p0:
  "events_ok benign
     (fst (commands_step env c) @ fst (events_step env c) @ fst (registerEvents_step env c)
        @ fst (dashboard_step env), st)"
  using benign_commands_step [of env c] benign_events_step [of env c]
    benign_registerEvents_step [of env c] benign_dashboard_step [of env]
  by (auto simp: events_ok_def)

lemma benign_early_p0:
  "events_ok benign (fst (validate_step env) @ fst (update_step env) @ fst (mongoose_step env), st)"
  using benign_steps [of env] by (auto simp: events_ok_def)

subsection \<open>The blocks of bot.js\<close>

lemma banner_bot:
  "printStartupBanner USE_FIGLET f = ([Console Log [''STATIC_ASCII_BANNER'']], Normal)"
  by (simp add: printStartupBanner_def USE_FIGLET_def emit_def)

lemma validation_bot_cases:
  "validation_bot env = ([Call ''validateConfiguration''], Normal)
   \<or> (\<exists>e. validation_bot env =
          ([Call ''validateConfiguration'', Console Error [''Configuration validation failed:'', e],
            ProcessExit 1], Exited 1))
   \<or> validation_bot env =
          ([TypeError ''validateConfiguration'',
            Console Error [''Configuration validation failed:'', ''TypeError''],
            ProcessExit 1], Exited 1)"
  by (simp add: validation_bot_def call_def invoke_def try_catch_def seq_def emit_def process_exit_def
      split: option.splits jsvalue.splits result.splits)

lemma no_exit_load_step: "no_exit (load_step c nm v msg)"
  unfolding load_step_def by (auto intro!: no_exit_intros)

lemma benign_load_step: "nm \<noteq> ''client.login'' \<Longrightarrow> events_ok benign (load_step c nm v msg)"
  unfolding load_step_def by (auto intro!: events_ok_intros)

lemma no_exit_loaders_bot: "no_exit (loaders_bot c)"
  by (simp add: loaders_bot_def no_exit_seq no_exit_load_step no_exit_simple)

lemma benign_loaders_bot: "events_ok benign (loaders_bot c)"
  by (simp add: loaders_bot_def events_ok_seq benign_load_step events_ok_skip)

lemma no_exit_branches: "no_exit (dashboard_branch env c)" "no_exit (database_branch env c)"
  unfolding dashboard_branch_def database_branch_def
  by (auto intro!: no_exit_intros split: module.splits)

lemma benign_branches:
  "events_ok benign (dashboard_branch env c)" "events_ok benign (database_branch env c)"
  unfolding dashboard_branch_def database_branch_def
  by (auto intro!: events_ok_intros split: module.splits)

lemma events_ok_login_bot:
  assumes "P (Call ''client.login'')" "P (Settled ''client.login'')"
    "P (TypeError ''client.login'')" "\<And>args. P (LoggerCall Log args)"
  shows "events_ok P (login_bot env c)"
proof (cases "core_BotClient env")
  case Missing
  then show ?thesis
    using assms by (simp add: login_bot_def MinimalBotClient_login_def events_ok_def)
next
  case (Exports x)
  then show ?thesis
    using assms by (simp add: login_bot_def events_ok_await_call)
qed

lemma no_exit_login_bot: "no_exit (login_bot env c)"
  by (cases "core_BotClient env")
     (simp_all add: login_bot_def MinimalBotClient_login_def no_exit_await_call [unfolded no_exit_def]
        no_exit_def)

lemma startup_catch_exits: "snd (startup_catch c err) = Exited 1"
proof -
  have "normal (try_catch (guarded_log c Error [''Startup error'', err])
            (\<lambda>x. emit (Console Error [''Startup error'', err])))"
    by (auto intro!: normal_intros no_exit_intros)
  then show ?thesis by (simp add: startup_catch_def snd_seq normal_def)
qed

lemma startup_catch_events:
  "events_ok (\<lambda>e. benign e \<or> e = ProcessExit 1) (startup_catch c err)"
  unfolding startup_catch_def by (auto intro!: events_ok_intros)

lemma events_ok_mono: "events_ok P b \<Longrightarrow> (\<And>e. P e \<Longrightarrow> Q e) \<Longrightarrow> events_ok Q b"
  by (auto simp: events_ok_def)

lemma startup_flow_no_token:
  assumes "\<not> truthy (BOT_TOKEN env)"
  shows "startup_flow env c =
     seq (await_call ''checkForUpdates'' (or_noop (botUtils_checkForUpdates env)))
       (seq (if hasDashboard c then dashboard_branch env c else database_branch env c)
          (seq (guarded_log c Error [''BOT_TOKEN not set in environment. Exiting.''])
               (process_exit 1)))"
proof -
  have "snd (seq (guarded_log c Error [''BOT_TOKEN not set in environment. Exiting.''])
               (process_exit 1)) \<noteq> Normal"
    by (simp add: snd_seq)
  then show ?thesis using assms by (simp add: startup_flow_def seq_stop)
qed

lemma startup_no_token:
  assumes "\<not> truthy (BOT_TOKEN env)"
  shows "snd (startup env c) = Exited 1"
    and "events_ok (\<lambda>e. benign e \<or> e = ProcessExit 1) (startup env c)"
proof -
  let ?u = "await_call ''checkForUpdates'' (or_noop (botUtils_checkForUpdates env))"
  let ?b = "if hasDashboard c then dashboard_branch env c else database_branch env c"
  let ?g = "guarded_log c Error [''BOT_TOKEN not set in environment. Exiting.'']"
  have u: "no_exit ?u" and b: "no_exit ?b" and g: "no_exit ?g"
    by (auto intro!: no_exit_intros no_exit_branches)
  have flow: "snd (startup_flow env c) = Exited 1 \<or> (\<exists>e. snd (startup_flow env c) = Thrown e)"
    unfolding startup_flow_no_token [OF assms] using u b g
    by (cases "snd ?u"; cases "snd ?b"; cases "snd ?g") (auto simp: snd_seq no_exit_def)
  then show "snd (startup env c) = Exited 1"
    by (auto simp: startup_def snd_try_catch startup_catch_exits)
  have flowev: "events_ok (\<lambda>e. benign e \<or> e = ProcessExit 1) (startup_flow env c)"
    unfolding startup_flow_no_token [OF assms]
    by (auto intro!: events_ok_intros events_ok_mono [OF benign_branches(1)]
          events_ok_mono [OF benign_branches(2)])
  show "events_ok (\<lambda>e. benign e \<or> e = ProcessExit 1) (startup env c)"
    unfolding startup_def by (rule events_ok_try_catch [OF flowev startup_catch_events])
qed

lemma main_bot_unfold:
  "main_bot env =
     seq (DotenvConfig # Console Log [''STATIC_ASCII_BANNER''] # fst (validation_bot env),
          snd (validation_bot env))
       (construct (BotClient_bot env) (after_construct_bot env))"
  by (cases "validation_bot env")
     (auto simp: main_bot_def banner_bot seq_def emit_def skip_def split: status.splits)

lemma after_construct_bot_unfold:
  "after_construct_bot env c =
     seq (loaders_bot c) (seq (emit (ProcessOn ''unhandledRejection'')) (startup env c))"
  by (cases "startup env c")
     (auto simp: after_construct_bot_def seq_def emit_def skip_def split: status.splits)

lemma ends_before_login_bot_after:
  assumes "\<not> truthy (BOT_TOKEN env)"
  shows "snd (after_construct_bot env c) = Exited 1
         \<or> ((\<exists>e. snd (after_construct_bot env c) = Thrown e)
             \<and> events_ok benign (after_construct_bot env c))"
    and "\<not> login_invoked (after_construct_bot env c)"
proof -
  note st = startup_no_token [OF assms, of c]
  have l: "no_exit (loaders_bot c)" and lb: "events_ok benign (loaders_bot c)"
    by (rule no_exit_loaders_bot, rule benign_loaders_bot)
  show "snd (after_construct_bot env c) = Exited 1
         \<or> ((\<exists>e. snd (after_construct_bot env c) = Thrown e)
             \<and> events_ok benign (after_construct_bot env c))"
    unfolding after_construct_bot_unfold using l lb st(1)
    by (cases "snd (loaders_bot c)") (auto simp: snd_seq fst_seq no_exit_def events_ok_def)
  show "\<not> login_invoked (after_construct_bot env c)"
    unfolding after_construct_bot_unfold using lb st(2)
    by (auto simp: login_invoked_def fst_seq events_ok_def elim: benign_elims)
qed

lemma ends_before_login_bot:
  assumes "\<not> truthy (BOT_TOKEN env)"
  shows "ends_before_login (main_bot env)"
proof -
  let ?pre = "(DotenvConfig # Console Log [''STATIC_ASCII_BANNER''] # fst (validation_bot env),
          snd (validation_bot env))"
  consider (exit) "snd (validation_bot env) = Exited 1" "events_ok (\<lambda>e. e \<noteq> Call ''client.login'') ?pre"
    | (go) "validation_bot env = ([Call ''validateConfiguration''], Normal)"
    using validation_bot_cases [of env] by (auto simp: events_ok_def)
  then show ?thesis
  proof cases
    case exit
    then show ?thesis
      by (auto simp: main_bot_unfold seq_stop ends_before_login_def login_invoked_def events_ok_def)
  next
    case go
    show ?thesis
    proof (cases "BotClient_bot env")
      case None
      then show ?thesis
        by (simp add: main_bot_unfold go seq_def construct_def ends_before_login_def login_invoked_def)
    next
      case (Some r)
      show ?thesis
      proof (cases r)
        case (Inl e)
        with Some show ?thesis
          by (simp add: main_bot_unfold go seq_def construct_def ends_before_login_def
                login_invoked_def)
      next
        case (Inr c)
        from ends_before_login_bot_after [OF assms, of c] Some Inr show ?thesis
          by (auto simp: main_bot_unfold go seq_def construct_Inr ends_before_login_def
                login_invoked_def events_ok_def emit_def elim: benign_elims)
      qed
    qed
  qed
qed

lemma ends_before_login_p0:
  assumes "\<not> truthy (token_p0 env)"
  shows "ends_before_login (main_p0 env)"
proof (cases "normal (fst (resolve_BotClient env))")
  case False
  then show ?thesis
    by (simp add: main_p0_unresolved ends_before_login_def login_invoked_def)
next
  case True
  have rb: "events_ok benign (fst (resolve_BotClient env))"
    using resolve_cases [of env] True by (auto simp: normal_def)
  note early = benign_early_p0 [of env Normal]
  show ?thesis
  proof (cases "snd (resolve_BotClient env)")
    case None
    then show ?thesis using rb early
      by (auto simp: main_p0_fst [OF True] main_p0_snd [OF True] construct_def
            ends_before_login_def login_invoked_def events_ok_def elim: benign_elims)
  next
    case (Some r)
    show ?thesis
    proof (cases r)
      case (Inl e)
      with Some show ?thesis using rb early
        by (auto simp: main_p0_fst [OF True] main_p0_snd [OF True] construct_def
              ends_before_login_def login_invoked_def events_ok_def elim: benign_elims)
    next
      case (Inr c)
      with Some show ?thesis using rb early benign_middle_p0 [of env c Normal]
        by (auto simp: main_p0_fst [OF True] main_p0_snd [OF True] construct_Inr
              after_construct_p0_fst after_construct_p0_snd login_step_no_token [OF assms]
              ends_before_login_def login_invoked_def events_ok_def elim: benign_elims)
    qed
  qed
qed

subsection \<open>The optional steps of part_000\<close>

lemma optional_step_throws:
  "v = Some (Callable (Throws e)) \<Longrightarrow> snd (logf [f, e]) = Normal \<Longrightarrow>
   optional_step call nm v d a logf f = (Call nm # fst (logf [f, e]), Normal)"
  by (simp add: optional_step_def is_function_def call_def invoke_def seq_def try_catch_def)

lemma optional_step_await_throws:
  "v = Some (Callable (Throws e)) \<Longrightarrow> snd (logf [f, e]) = Normal \<Longrightarrow>
   optional_step await_call nm v d a logf f = (Call nm # Settled nm # fst (logf [f, e]), Normal)"
  by (simp add: optional_step_def is_function_def await_call_def seq_def try_catch_def)

subsection \<open>A failing update check in bot.js\<close>

lemma update_throws_startup:
  assumes "or_noop (botUtils_checkForUpdates env) = Some (Callable (Throws e))"
  shows "startup env c =
           (Call ''checkForUpdates'' # Settled ''checkForUpdates'' # fst (startup_catch c e),
            Exited 1)"
proof -
  have "startup_flow env c = ([Call ''checkForUpdates'', Settled ''checkForUpdates''], Thrown e)"
    using assms by (simp add: startup_flow_def await_call_def seq_def)
  then show ?thesis
    by (simp add: startup_def try_catch_def startup_catch_exits)
qed

lemma update_throws_bot:
  assumes "or_noop (botUtils_checkForUpdates env) = Some (Callable (Throws e))"
  shows "\<not> login_invoked (main_bot env)"
    and "snd (main_bot env) \<noteq> Normal"
    and "ProcessOn ''unhandledRejection'' \<in> set (fst (main_bot env)) \<Longrightarrow>
           snd (main_bot env) = Exited 1 \<and> Call ''checkForUpdates'' \<in> set (fst (main_bot env))"
proof -
  have ce: "events_ok (\<lambda>e. benign e \<or> e = ProcessExit 1) (startup_catch c e)" for c
    by (rule startup_catch_events)
  have after: "\<not> login_invoked (after_construct_bot env c)
      \<and> snd (after_construct_bot env c) \<noteq> Normal
      \<and> (ProcessOn ''unhandledRejection'' \<in> set (fst (after_construct_bot env c)) \<longrightarrow>
           snd (after_construct_bot env c) = Exited 1
           \<and> Call ''checkForUpdates'' \<in> set (fst (after_construct_bot env c)))" for c
    using benign_loaders_bot [of c] no_exit_loaders_bot [of c] ce [of c]
    unfolding after_construct_bot_unfold update_throws_startup [OF assms]
    by (cases "snd (loaders_bot c)")
       (auto simp: login_invoked_def fst_seq snd_seq events_ok_def no_exit_def elim: benign_elims)
  have all: "\<not> login_invoked (main_bot env) \<and> snd (main_bot env) \<noteq> Normal
      \<and> (ProcessOn ''unhandledRejection'' \<in> set (fst (main_bot env)) \<longrightarrow>
           snd (main_bot env) = Exited 1 \<and> Call ''checkForUpdates'' \<in> set (fst (main_bot env)))"
  proof (cases "BotClient_bot env")
    case None
    then show ?thesis using validation_bot_cases [of env]
      by (auto simp: main_bot_unfold seq_def construct_def login_invoked_def)
  next
    case (Some r)
    show ?thesis
    proof (cases r)
      case (Inl x)
      with Some show ?thesis using validation_bot_cases [of env]
        by (auto simp: main_bot_unfold seq_def construct_def login_invoked_def)
    next
      case (Inr c)
      with Some show ?thesis using validation_bot_cases [of env] after [of c]
        by (auto simp: main_bot_unfold seq_def construct_Inr login_invoked_def)
    qed
  qed
  from all show "\<not> login_invoked (main_bot env)" by blast
  from all show "snd (main_bot env) \<noteq> Normal" by blast
  from all show "ProcessOn ''unhandledRejection'' \<in> set (fst (main_bot env)) \<Longrightarrow>
           snd (main_bot env) = Exited 1 \<and> Call ''checkForUpdates'' \<in> set (fst (main_bot env))"
    by blast
qed

lemma loaders_Minimal:
  "loaders_bot MinimalBotClient =
     ([Call ''client.loadCommands'', Call ''client.loadCommandTests'', Call ''client.loadEvents''],
      Normal)"
  by code_simp

subsection \<open>Handler registration and the handlers\<close>

lemma installs_append: "installs (xs @ ys) = installs xs @ installs ys"
  by (induction xs rule: installs.induct) simp_all

lemma installs_none: "(\<And>e. e \<in> set es \<Longrightarrow> \<forall>nm. e \<noteq> ProcessOn nm) \<Longrightarrow> installs es = []"
  by (induction es rule: installs.induct) auto

lemma installs_benign: "events_ok benign (es, st) \<Longrightarrow> installs es = []"
  by (rule installs_none) (auto simp: events_ok_def elim: benign_elims)

lemma startup_events:
  "events_ok (\<lambda>e. benign e \<or> e = ProcessExit 1 \<or> e = Call ''client.login'') (startup env c)"
proof -
  let ?P = "\<lambda>e. benign e \<or> e = ProcessExit 1 \<or> e = Call ''client.login''"
  have br: "events_ok ?P (if hasDashboard c then dashboard_branch env c else database_branch env c)"
    using benign_branches [of env c] by (auto simp: events_ok_def)
  have tok: "events_ok ?P
      (if \<not> truthy (BOT_TOKEN env)
       then seq (guarded_log c Error [''BOT_TOKEN not set in environment. Exiting.''])
                (process_exit 1)
       else skip)"
    by (auto intro!: events_ok_intros)
  have flow: "events_ok ?P (startup_flow env c)"
    unfolding startup_flow_def seqs.simps
    by (intro events_ok_seq br tok events_ok_skip events_ok_await_call events_ok_login_bot
          events_ok_guarded_log)
       simp_all
  have catch: "events_ok ?P (startup_catch c e)" for e
    using startup_catch_events [of c e] by (auto simp: events_ok_def)
  show ?thesis unfolding startup_def by (rule events_ok_try_catch [OF flow catch])
qed

lemma installs_startup: "installs (fst (startup env c)) = []"
  by (rule installs_none) (use startup_events [of env c] in \<open>auto simp: events_ok_def elim: benign_elims\<close>)

lemma installs_loaders: "installs (fst (loaders_bot c)) = []"
  using benign_loaders_bot [of c] by (cases "loaders_bot c") (auto dest: installs_benign)

lemma installs_validation: "installs (fst (validation_bot env)) = []"
  using validation_bot_cases [of env] by auto

lemma installs_after_construct_bot:
  "installs (fst (after_construct_bot env c)) =
     (if normal (loaders_bot c) then [''unhandledRejection''] else [])"
  by (simp add: after_construct_bot_unfold fst_seq snd_seq installs_append installs_loaders
        installs_startup normal_def)

lemma installs_main_bot:
  "installs (fst (main_bot env)) =
     (case BotClient_bot env of
        Some (Inr c) \<Rightarrow>
          (if normal (validation_bot env) \<and> normal (loaders_bot c) then [''unhandledRejection'']
           else [])
      | _ \<Rightarrow> [])"
  by (auto simp: main_bot_unfold fst_seq installs_append installs_validation construct_def
        construct_Inr installs_after_construct_bot normal_def emit_def
      split: option.splits sum.splits)

lemma installs_mem: "nm \<in> set (installs es) = (ProcessOn nm \<in> set es)"
  by (induction es rule: installs.induct) auto

lemma installs_main_p0:
  assumes "snd (resolve_BotClient env) = Some (Inr c)"
  shows "installs (fst (main_p0 env)) = [''unhandledRejection'', ''uncaughtException'']"
proof -
  from resolve_Some [OF assms] have n: "normal (fst (resolve_BotClient env))"
    and rb: "events_ok benign (fst (resolve_BotClient env))" by blast+
  have r0: "installs (fst (fst (resolve_BotClient env))) = []"
    using rb by (cases "fst (resolve_BotClient env)") (auto dest: installs_benign)
  have e0: "installs (fst (validate_step env) @ fst (update_step env) @ fst (mongoose_step env)) = []"
    using benign_early_p0 [of env Normal] by (rule installs_benign)
  have m0: "installs (fst (commands_step env c) @ fst (events_step env c)
        @ fst (registerEvents_step env c) @ fst (dashboard_step env)) = []"
    using benign_middle_p0 [of env c Normal] by (rule installs_benign)
  have l0: "installs (fst (login_step env c)) = []"
    by (rule installs_none)
       (auto simp: login_step_def fst_seq fst_try_catch await_call_def is_function_def
          split: if_splits status.splits option.splits jsvalue.splits result.splits)
  show ?thesis
    using r0 e0 m0 l0
    by (simp add: main_p0_fst [OF n] assms construct_Inr after_construct_p0_fst installs_append)
qed

lemma handler_p0_logger:
  "is_function (error_logger (Some c)) \<Longrightarrow>
   take 1 (fst (handler_p0 label c x)) = [LoggerCall Error [label, x]]"
  by (auto simp: handler_p0_def error_logger_def is_function_def invoke_def fst_seq
      split: option.splits jsvalue.splits result.splits)

lemma handler_p0_console:
  "error_logger (Some c) = None \<Longrightarrow>
   handler_p0 label c x = ([Console Error [''[ERROR]'', label, x]], Normal)"
  by (auto simp: handler_p0_def error_logger_def log_error_def emit_def split: option.splits)

lemma handler_p0_no_exit:
  "\<not> exit_called (handler_p0 label c x) \<and> no_exit (handler_p0 label c x)"
  by (auto simp: handler_p0_def exit_called_iff no_exit_def invoke_def fst_seq snd_seq log_error_def
        emit_def
      split: option.splits jsvalue.splits result.splits)

lemma handler_bot_cases:
  "unhandledRejection_bot oc x =
     (case error_logger oc of
        Some (Callable (Returns b)) \<Rightarrow> ([LoggerCall Error [''unhandledRejection'', x]], Normal)
      | Some (Callable (Throws e)) \<Rightarrow>
          ([LoggerCall Error [''unhandledRejection'', x],
            Console Error [''Error logging unhandledRejection:'', e]], Normal)
      | _ \<Rightarrow> ([Console Error [''unhandledRejection'', x]], Normal))"
  by (simp add: unhandledRejection_bot_def error_logger_def try_catch_def emit_def invoke_def
        is_function_def
      split: option.splits jsvalue.splits result.splits)

subsection \<open>The dashboard and database steps\<close>


lemma level_name_neq [simp]: "level_name lv \<noteq> ''initializeMongoose''"
  by (cases lv) simp_all


lemma not_branch_simps [simp]:
  "\<not> branch_event (Console lv args)" "\<not> branch_event (LoggerCall lv args)"
  "\<not> branch_event (Settled nm)"
  "\<not> branch_event (ProcessExit n)" "\<not> branch_event (ProcessOn nm)" "\<not> branch_event (New nm)"
  "\<not> branch_event DotenvConfig" "\<not> branch_event (TypeError (level_name lv))"
  "nm \<noteq> ''initializeMongoose'' \<Longrightarrow> \<not> branch_event (Call nm)"
  "nm \<noteq> ''initializeMongoose'' \<Longrightarrow> \<not> branch_event (TypeError nm)"
  by (simp_all add: branch_event_def)








lemma reached_bot:
  assumes "ProcessOn ''unhandledRejection'' \<in> set (fst (main_bot env))"
    and "BotClient_bot env = Some (Inr c)"
  shows "set (fst (startup env c)) \<subseteq> set (fst (main_bot env))"
proof -
  from assms have i: "installs (fst (main_bot env)) = [''unhandledRejection'']"
    using installs_mem [of "''unhandledRejection''" "fst (main_bot env)"]
    by (auto simp: installs_main_bot split: if_splits)
  with assms(2) have n: "normal (validation_bot env)" "normal (loaders_bot c)"
    by (auto simp: installs_main_bot split: if_splits)
  then show ?thesis
    using assms(2)
    by (auto simp: main_bot_unfold fst_seq construct_Inr after_construct_bot_unfold emit_def
          normal_def)
qed


















subsection \<open>Counting over the directory scan\<close>

lemma seqs_map_normal:
  assumes "\<And>x. normal (body x)"
  shows "normal (seqs (map body xs))"
    and "fst (seqs (map body xs)) = concat (map (\<lambda>x. fst (body x)) xs)"
  using assms [unfolded normal_def]
  by (induction xs) (simp_all add: normal_def fst_seq snd_seq)

lemma count_seqs:
  assumes "\<And>x. normal (body x)"
  shows "count P (seqs (map body xs)) = sum_list (map (\<lambda>x. count P (body x)) xs)"
  unfolding count_def seqs_map_normal(2) [of body, OF assms]
  by (induction xs) simp_all

lemma sum_list_indicator:
  "sum_list (map (\<lambda>x. if Q x then 1 else 0) xs) = length (filter Q xs)"
  by (induction xs) simp_all

lemma count_seqs_indicator:
  assumes "\<And>x. normal (body x)" "\<And>x. count P (body x) = (if Q x then 1 else 0)"
  shows "count P (seqs (map body xs)) = length (filter Q xs)"
  by (simp add: count_seqs [OF assms(1)] assms(2) sum_list_indicator)

lemma scan_Entries:
  assumes "\<And>x. normal (body x)"
  shows "normal (scan (Entries es) body d a)"
    and "fst (scan (Entries es) body d a) =
           fst (seqs (map body (js_files es))) @ [Console Log [''[INFO]'', d]]"
  using seqs_map_normal [of body "js_files es", OF assms]
  by (simp_all add: scan_def normal_def snd_seq fst_seq log_info_def emit_def)

lemma count_scan:
  assumes "\<And>x. normal (body x)" "\<And>x. count P (body x) = (if Q x then 1 else 0)"
    "\<not> P (Console Log [''[INFO]'', d])"
  shows "count P (scan (Entries es) body d a) = length (filter Q (js_files es))"
proof -
  have "count P (scan (Entries es) body d a) = count P (seqs (map body (js_files es)))"
    using assms(3) by (simp add: count_def scan_Entries(2) [OF assms(1)])
  then show ?thesis by (simp add: count_seqs_indicator [OF assms(1,2)])
qed

lemma load_command_requires: "count is_require (load_command c e) = (if True then 1 else 0)"
  using invoke_cases [of "CommandsSet (the (export_name (projr (snd e)))) (fst e)"
      "''client.commands.set''" "commands_set c"]
  by (auto simp: load_command_def count_def fst_try_catch fst_seq snd_seq
      split: sum.splits status.splits)

lemma load_event_requires: "count is_require (load_event c e) = (if True then 1 else 0)"
proof (cases "snd e")
  case (Inl err)
  then show ?thesis by (simp add: load_event_def count_def fst_try_catch fst_seq snd_seq)
next
  case (Inr ev)
  then show ?thesis
    using invoke_cases [of "ClientOn (eventName ev (fst e)) (fst e)" "''client.on''" "client_on c"]
    by (cases ev)
       (auto simp: load_event_def count_def fst_try_catch fst_seq snd_seq split: status.splits)
qed

lemma load_command_counts:
  assumes "commands_set c = Some (Callable (Returns b))"
  shows "count is_registration (load_command c e) = (if named_command e then 1 else 0)"
    and "count is_warning (load_command c e) =
           (if fails_to_load e \<or> exports_nothing e then 1 else 0)"
proof -
  show "count is_registration (load_command c e) = (if named_command e then 1 else 0)"
  proof (cases "snd e")
    case (Inl err)
    then show ?thesis
      by (simp add: load_command_def count_def fst_try_catch fst_seq snd_seq named_command_def)
  next
    case (Inr cmd)
    then show ?thesis using assms
      by (cases cmd)
         (simp_all add: load_command_def count_def fst_try_catch fst_seq snd_seq named_command_def
            is_function_def invoke_def truthy_def)
  qed
  show "count is_warning (load_command c e) =
           (if fails_to_load e \<or> exports_nothing e then 1 else 0)"
  proof (cases "snd e")
    case (Inl err)
    then show ?thesis
      by (simp add: load_command_def count_def fst_try_catch fst_seq snd_seq fails_to_load_def)
  next
    case (Inr cmd)
    then show ?thesis using assms
      by (cases cmd)
         (simp_all add: load_command_def count_def fst_try_catch fst_seq snd_seq fails_to_load_def
            exports_nothing_def is_function_def invoke_def)
  qed
qed

lemma load_event_counts:
  assumes "client_on c = Some (Callable (Returns b))"
  shows "count is_registration (load_event c e) = (if bindable_event e then 1 else 0)"
    and "count is_warning (load_event c e) =
           (if fails_to_load e \<or> exports_nothing e then 1 else 0)"
proof -
  show "count is_registration (load_event c e) = (if bindable_event e then 1 else 0)"
  proof (cases "snd e")
    case (Inl err)
    then show ?thesis
      by (simp add: load_event_def count_def fst_try_catch fst_seq snd_seq bindable_event_def)
  next
    case (Inr ev)
    then show ?thesis using assms
      by (cases ev)
         (simp_all add: load_event_def count_def fst_try_catch fst_seq snd_seq bindable_event_def
            invoke_def)
  qed
  show "count is_warning (load_event c e) =
           (if fails_to_load e \<or> exports_nothing e then 1 else 0)"
  proof (cases "snd e")
    case (Inl err)
    then show ?thesis
      by (simp add: load_event_def count_def fst_try_catch fst_seq snd_seq fails_to_load_def)
  next
    case (Inr ev)
    then show ?thesis using assms
      by (cases ev)
         (simp_all add: load_event_def count_def fst_try_catch fst_seq snd_seq fails_to_load_def
            exports_nothing_def invoke_def)
  qed
qed

lemma all_or_nothing:
  assumes "\<And>x. x \<in> set xs \<Longrightarrow> F x \<or> R x" "\<And>x. R x \<Longrightarrow> \<not> F x"
  shows "length (filter R xs) = length xs - length (filter F xs)"
proof -
  have "filter R xs = filter (\<lambda>x. \<not> F x) xs"
    using assms by (intro filter_cong) auto
  then show ?thesis
    using sum_length_filter_compl [of F xs] by simp
qed

subsection \<open>The order of the steps\<close>

lemma steps_append: "steps (xs @ ys) = steps xs @ steps ys"
  by (induction xs) (simp_all split: option.splits)

lemma at_rank_simps [simp]:
  "at_rank r k (Console Warn args)" "at_rank r k (Console Error args)"
  "at_rank r k (Console Log (''[INFO]'' # args))" "at_rank r k (LoggerCall lv args)"
  "at_rank r k (TypeError nm)" "at_rank r k (Settled nm)" "at_rank r k (Require p)"
  "at_rank r k (ProcessOn nm)"
  "at_rank r k (ProcessExit x)" "at_rank r k (New nm)"
  "at_rank r k (CommandsSet n f) = (r Commands = k)"
  "at_rank r k (ClientOn n f) = (r Events = k)"
  "at_rank r k (Call nm) = (case call_step nm of None \<Rightarrow> True | Some s \<Rightarrow> r s = k)"
  by (simp_all add: at_rank_def step_of_def)

lemma steps_at_rank:
  "\<forall>e \<in> set es. at_rank r k e \<Longrightarrow> \<forall>s \<in> set (steps es). r s = k"
  by (induction es) (auto simp: at_rank_def split: option.splits)

lemma sorted_const: "\<forall>x \<in> set xs. x = (k::nat) \<Longrightarrow> sorted xs"
  by (induction xs) auto

lemma ranked_same: "events_ok (at_rank r k) b \<Longrightarrow> ranked r k k b"
proof -
  assume "events_ok (at_rank r k) b"
  then have a: "\<forall>s \<in> set (steps (fst b)). r s = k"
    by (intro steps_at_rank) (simp add: events_ok_def)
  then have "sorted (map r (steps (fst b)))" by (intro sorted_const) auto
  with a show ?thesis by (simp add: ranked_def)
qed

lemma ranked_widen: "ranked r lo hi b \<Longrightarrow> lo' \<le> lo \<Longrightarrow> hi \<le> hi' \<Longrightarrow> ranked r lo' hi' b"
  by (fastforce simp: ranked_def)

lemma ranked_seq:
  "ranked r lo m a \<Longrightarrow> ranked r m hi b \<Longrightarrow> lo \<le> m \<Longrightarrow> m \<le> hi \<Longrightarrow> ranked r lo hi (seq a b)"
  by (fastforce simp: ranked_def fst_seq steps_append sorted_append)

lemma ranked_try_catch:
  "ranked r lo m a \<Longrightarrow> (\<And>e. ranked r m hi (h e)) \<Longrightarrow> lo \<le> m \<Longrightarrow> m \<le> hi \<Longrightarrow>
   ranked r lo hi (try_catch a h)"
  by (cases "snd a") (fastforce simp: ranked_def fst_try_catch steps_append sorted_append)+

lemma ranked_construct:
  "(\<And>c. ranked r lo hi (k c)) \<Longrightarrow> lo \<le> hi \<Longrightarrow> ranked r lo hi (construct ctor k)"
proof (cases ctor)
  case None
  then show ?thesis by (simp add: construct_def ranked_def step_of_def)
next
  case (Some x)
  assume k: "\<And>c. ranked r lo hi (k c)"
  show ?thesis
  proof (cases x)
    case (Inl e)
    with Some show ?thesis by (simp add: construct_def ranked_def step_of_def)
  next
    case (Inr c)
    with Some k [of c] show ?thesis
      by (simp add: construct_def ranked_def fst_seq step_of_def)
  qed
qed

lemma in_order_ranked: "ranked r lo hi b \<Longrightarrow> in_order r b"
  by (simp add: ranked_def in_order_def)

lemma ranked_by_events:
  "events_ok (at_rank r k) b \<Longrightarrow> lo \<le> k \<Longrightarrow> k \<le> hi \<Longrightarrow> ranked r lo hi b"
  by (rule ranked_widen [OF ranked_same])

text \<open>The steps of bot.js, each with its rank.\<close>

lemma call_step_simps [simp]:
  "call_step ''validateConfiguration'' = Some Validation"
  "call_step ''checkForUpdates'' = Some UpdateCheck"
  "call_step ''initializeMongoose'' = Some Database"
  "call_step ''dashboardLauncher.launch'' = Some Dashboard"
  "call_step ''launcher.launch'' = Some Dashboard"
  "call_step ''launcher'' = Some Dashboard"
  "call_step ''maybe.launch'' = Some Dashboard"
  "call_step ''client.loadCommands'' = Some Commands"
  "call_step ''client.loadCommandTests'' = Some Commands"
  "call_step ''client.loadEvents'' = Some Events"
  "call_step ''client.registerEvents'' = Some Events"
  "call_step ''client.login'' = Some Login"
  by (simp_all add: call_step_def)

lemma rank_validation_bot: "events_ok (at_rank bot_rank 2) (validation_bot env)"
  unfolding validation_bot_def by (auto intro!: events_ok_intros)

lemma rank_load_step:
  "at_rank bot_rank k (Call nm) \<Longrightarrow> events_ok (at_rank bot_rank k) (load_step c nm v msg)"
  unfolding load_step_def by (auto intro!: events_ok_intros)

lemma rank_loaders_bot: "ranked bot_rank 3 4 (loaders_bot c)"
  unfolding loaders_bot_def seqs.simps
  by (intro ranked_seq [where m = 3] ranked_seq [where m = 4 and lo = 3]
        ranked_by_events [where k = 3] ranked_by_events [where k = 4] rank_load_step
        events_ok_skip)
     simp_all

lemma rank_branches:
  "events_ok (at_rank bot_rank 6) (dashboard_branch env c)"
  "events_ok (at_rank bot_rank 6) (database_branch env c)"
  unfolding dashboard_branch_def database_branch_def
  by (auto intro!: events_ok_intros split: module.splits)

lemma rank_startup_catch: "events_ok (at_rank bot_rank k) (startup_catch c e)"
  unfolding startup_catch_def by (auto intro!: events_ok_intros)

lemma rank_token_check:
  "events_ok (at_rank bot_rank k)
     (if \<not> truthy (BOT_TOKEN env)
      then seq (guarded_log c Error [''BOT_TOKEN not set in environment. Exiting.''])
               (process_exit 1)
      else skip)"
  by (auto intro!: events_ok_intros)

lemma rank_startup: "ranked bot_rank 5 7 (startup env c)"
proof -
  have br: "events_ok (at_rank bot_rank 6)
      (if hasDashboard c then dashboard_branch env c else database_branch env c)"
    by (simp add: rank_branches)
  have login: "ranked bot_rank 7 7
      (seq (login_bot env c)
         (seq (guarded_log c Log [''Bot started successfully.'']) skip))"
    by (intro ranked_same events_ok_seq events_ok_login_bot events_ok_guarded_log events_ok_skip)
       simp_all
  have tail: "ranked bot_rank 6 7
      (seq (if \<not> truthy (BOT_TOKEN env)
            then seq (guarded_log c Error [''BOT_TOKEN not set in environment. Exiting.''])
                     (process_exit 1)
            else skip)
         (seq (login_bot env c)
            (seq (guarded_log c Log [''Bot started successfully.'']) skip)))"
    by (rule ranked_seq [where m = 7, OF ranked_by_events [OF rank_token_check [where k = 6]] login])
       simp_all
  have mid: "ranked bot_rank 5 7
      (seq (if hasDashboard c then dashboard_branch env c else database_branch env c)
        (seq (if \<not> truthy (BOT_TOKEN env)
            then seq (guarded_log c Error [''BOT_TOKEN not set in environment. Exiting.''])
                     (process_exit 1)
            else skip)
         (seq (login_bot env c)
            (seq (guarded_log c Log [''Bot started successfully.'']) skip))))"
    by (rule ranked_widen [OF ranked_seq [where m = 6, OF ranked_same [OF br] tail]]) simp_all
  have upd: "ranked bot_rank 5 5
      (await_call ''checkForUpdates'' (or_noop (botUtils_checkForUpdates env)))"
    by (intro ranked_same events_ok_await_call) simp_all
  have flow: "ranked bot_rank 5 7 (startup_flow env c)"
    unfolding startup_flow_def seqs.simps
    by (rule ranked_seq [where m = 5, OF upd mid]) simp_all
  show ?thesis
    unfolding startup_def
    by (rule ranked_try_catch [where m = 7, OF flow ranked_same [OF rank_startup_catch]]) simp_all
qed

lemma rank_after_construct_bot: "ranked bot_rank 3 7 (after_construct_bot env c)"
proof -
  have on: "ranked bot_rank 4 4 (emit (ProcessOn ''unhandledRejection''))"
    by (intro ranked_same events_ok_emit) simp
  have "ranked bot_rank 4 7 (seq (emit (ProcessOn ''unhandledRejection'')) (startup env c))"
    by (rule ranked_seq [where m = 4, OF on ranked_widen [OF rank_startup]]) simp_all
  then show ?thesis
    unfolding after_construct_bot_unfold
    by (rule ranked_seq [where m = 4, OF rank_loaders_bot]) simp_all
qed

lemma rank_main_bot: "ranked bot_rank 0 7 (main_bot env)"
proof -
  have env0: "ranked bot_rank 0 0 (emit DotenvConfig)"
    by (simp add: ranked_def step_of_def)
  have ban: "ranked bot_rank 1 1 (printStartupBanner USE_FIGLET (figlet_textSync env))"
    by (simp add: banner_bot ranked_def step_of_def)
  have val: "ranked bot_rank 2 2 (validation_bot env)"
    by (rule ranked_same [OF rank_validation_bot])
  have con: "ranked bot_rank 3 7 (construct (BotClient_bot env) (after_construct_bot env))"
    by (rule ranked_construct [OF rank_after_construct_bot]) simp
  have c0: "ranked bot_rank 3 7 (seq (construct (BotClient_bot env) (after_construct_bot env)) skip)"
    by (rule ranked_seq [where m = 7, OF con]) (simp_all add: ranked_def)
  have c1: "ranked bot_rank 2 7
      (seq (validation_bot env) (seq (construct (BotClient_bot env) (after_construct_bot env)) skip))"
    by (rule ranked_seq [where m = 2, OF val ranked_widen [OF c0]]) simp_all
  have c2: "ranked bot_rank 1 7
      (seq (printStartupBanner USE_FIGLET (figlet_textSync env))
        (seq (validation_bot env)
           (seq (construct (BotClient_bot env) (after_construct_bot env)) skip)))"
    by (rule ranked_seq [where m = 1, OF ban ranked_widen [OF c1]]) simp_all
  show ?thesis
    unfolding main_bot_def seqs.simps
    by (rule ranked_seq [where m = 0, OF env0 ranked_widen [OF c2]]) simp_all
qed

text \<open>The steps of part_000, each with its rank.\<close>

lemma rank_resolve: "events_ok (at_rank p0_rank k) (fst (resolve_BotClient env))"
  by (auto simp: resolve_BotClient_def events_ok_def fst_seq split: option.splits)

lemma rank_optional_step:
  "events_ok (at_rank p0_rank k) (caller nm v) \<Longrightarrow>
   (\<And>args. events_ok (at_rank p0_rank k) (logf args)) \<Longrightarrow>
   events_ok (at_rank p0_rank k) (optional_step caller nm v d a logf f)"
  unfolding optional_step_def by (auto intro!: events_ok_intros)

lemma rank_early_steps:
  "events_ok (at_rank p0_rank 2) (validate_step env)"
  "events_ok (at_rank p0_rank 3) (update_step env)"
  "events_ok (at_rank p0_rank 4) (mongoose_step env)"
  unfolding validate_step_def update_step_def mongoose_step_def
  by (auto intro!: rank_optional_step events_ok_intros)

lemma rank_load_command: "events_ok (at_rank p0_rank 5) (load_command c e)"
  unfolding load_command_def
  by (auto intro!: events_ok_intros events_ok_pair split: sum.splits)

lemma rank_load_event: "events_ok (at_rank p0_rank 6) (load_event c e)"
  unfolding load_event_def
  by (auto intro!: events_ok_intros events_ok_pair split: sum.splits export.splits)

lemma rank_scan:
  "(\<And>e. events_ok (at_rank p0_rank k) (body e)) \<Longrightarrow> events_ok (at_rank p0_rank k) (scan dir body d a)"
  unfolding scan_def
  by (auto intro!: events_ok_intros events_ok_seqs split: directory.splits)

lemma rank_try_loader:
  "at_rank p0_rank k (Call nm) \<Longrightarrow> events_ok (at_rank p0_rank k) fb \<Longrightarrow>
   events_ok (at_rank p0_rank k) (try_loader nm v d t fb)"
  unfolding try_loader_def
  by (auto intro!: events_ok_intros split: status.splits)

lemma rank_commands_step: "events_ok (at_rank p0_rank 5) (commands_step env c)"
  unfolding commands_step_def tryLoadCommands_def scan_commands_def
  by (auto intro!: events_ok_intros rank_try_loader rank_scan rank_load_command)

lemma rank_events_step: "events_ok (at_rank p0_rank 6) (events_step env c)"
  unfolding events_step_def tryLoadEvents_def scan_events_def
  by (auto intro!: events_ok_intros rank_try_loader rank_scan rank_load_event)

lemma rank_registerEvents_step: "events_ok (at_rank p0_rank 6) (registerEvents_step env c)"
  unfolding registerEvents_step_def
  by (auto intro!: events_ok_intros)

lemma rank_launch_file: "events_ok (at_rank p0_rank 7) (fst (launch_file p r))"
  unfolding launch_file_def Let_def
  by (auto intro!: events_ok_intros split: sum.splits launcher.splits)

lemma rank_launch_loop: "events_ok (at_rank p0_rank 7) (fst (launch_loop ps))"
  by (induction ps rule: launch_loop.induct)
     (auto simp: events_ok_skip rank_launch_file intro!: events_ok_seq)

lemma rank_launch_package: "events_ok (at_rank p0_rank 7) (launch_package env)"
  unfolding launch_package_def Let_def
  by (auto intro!: events_ok_intros split: sum.splits launcher.splits)

lemma rank_dashboard_step: "events_ok (at_rank p0_rank 7) (dashboard_step env)"
  unfolding dashboard_step_def tryLaunchDashboard_def
  by (auto intro!: events_ok_intros rank_launch_loop rank_launch_package)

lemma rank_login_step: "events_ok (at_rank p0_rank 8) (login_step env c)"
  unfolding login_step_def
  by (auto intro!: events_ok_intros)

lemma rank_after_construct_p0: "ranked p0_rank 5 8 (after_construct_p0 env c)"
proof -
  have on: "ranked p0_rank 5 5 (emit (ProcessOn nm))" for nm
    by (intro ranked_same events_ok_emit) simp
  have l: "ranked p0_rank 8 8 (seq (login_step env c) skip)"
    by (intro ranked_same events_ok_seq rank_login_step events_ok_skip)
  have d: "ranked p0_rank 7 8 (seq (dashboard_step env) (seq (login_step env c) skip))"
    by (rule ranked_seq [where m = 8, OF ranked_by_events [OF rank_dashboard_step] l]) simp_all
  have r: "ranked p0_rank 6 8
      (seq (registerEvents_step env c) (seq (dashboard_step env) (seq (login_step env c) skip)))"
    by (rule ranked_seq [where m = 7, OF ranked_by_events [OF rank_registerEvents_step] d])
       simp_all
  have e: "ranked p0_rank 6 8
      (seq (events_step env c)
        (seq (registerEvents_step env c)
           (seq (dashboard_step env) (seq (login_step env c) skip))))"
    by (rule ranked_seq [where m = 6, OF ranked_same [OF rank_events_step] r]) simp_all
  have c: "ranked p0_rank 5 8
      (seq (commands_step env c)
        (seq (events_step env c)
          (seq (registerEvents_step env c)
             (seq (dashboard_step env) (seq (login_step env c) skip)))))"
    by (rule ranked_seq [where m = 6, OF ranked_by_events [OF rank_commands_step] e]) simp_all
  show ?thesis
    unfolding after_construct_p0_def seqs.simps
    by (intro ranked_seq [where m = 5 and lo = 5] on c) simp_all
qed

lemma rank_main_p0: "ranked p0_rank 0 8 (main_p0 env)"
proof -
  have env0: "ranked p0_rank 0 0 (emit DotenvConfig)"
    by (simp add: ranked_def step_of_def)
  have ban: "ranked p0_rank 1 1 (emit (Console Log [''ASCII_BANNER'']))"
    by (simp add: ranked_def step_of_def)
  have con: "ranked p0_rank 5 8
      (seq (construct (snd (resolve_BotClient env)) (after_construct_p0 env)) skip)"
    by (rule ranked_seq [where m = 8, OF ranked_construct [OF rank_after_construct_p0]])
       (simp_all add: ranked_def)
  have m: "ranked p0_rank 4 8
      (seq (mongoose_step env)
         (seq (construct (snd (resolve_BotClient env)) (after_construct_p0 env)) skip))"
    by (rule ranked_seq [where m = 5, OF ranked_by_events [OF rank_early_steps(3)] con]) simp_all
  have u: "ranked p0_rank 3 8
      (seq (update_step env)
        (seq (mongoose_step env)
           (seq (construct (snd (resolve_BotClient env)) (after_construct_p0 env)) skip)))"
    by (rule ranked_seq [where m = 4, OF ranked_by_events [OF rank_early_steps(2)] m]) simp_all
  have v: "ranked p0_rank 2 8
      (seq (validate_step env)
        (seq (update_step env)
          (seq (mongoose_step env)
             (seq (construct (snd (resolve_BotClient env)) (after_construct_p0 env)) skip))))"
    by (rule ranked_seq [where m = 3, OF ranked_by_events [OF rank_early_steps(1)] u]) simp_all
  have r: "ranked p0_rank 1 8
      (seq (fst (resolve_BotClient env))
        (seq (validate_step env)
          (seq (update_step env)
            (seq (mongoose_step env)
               (seq (construct (snd (resolve_BotClient env)) (after_construct_p0 env)) skip)))))"
    by (rule ranked_seq [where m = 2, OF ranked_by_events [OF rank_resolve [where k = 1]] v])
       simp_all
  show ?thesis
    unfolding main_p0_def seqs.simps
    by (intro ranked_seq [where m = 0 and lo = 0] ranked_seq [where m = 1 and lo = 0]
          ranked_widen [OF env0] ranked_widen [OF ban] r)
       simp_all
qed

subsection \<open>A missing token\<close>

lemma startup_catch_last:
  "\<exists>es. fst (startup_catch c e) = es @ [ProcessExit 1]"
proof -
  have "normal (try_catch (guarded_log c Error [''Startup error'', e])
            (\<lambda>x. emit (Console Error [''Startup error'', e])))"
    by (auto intro!: normal_intros no_exit_intros)
  then show ?thesis by (simp add: startup_catch_def fst_seq normal_def)
qed

lemma startup_no_token_last:
  assumes "\<not> truthy (BOT_TOKEN env)"
  shows "\<exists>es. fst (startup env c) = es @ [ProcessExit 1]"
proof -
  let ?u = "await_call ''checkForUpdates'' (or_noop (botUtils_checkForUpdates env))"
  let ?b = "if hasDashboard c then dashboard_branch env c else database_branch env c"
  let ?g = "guarded_log c Error [''BOT_TOKEN not set in environment. Exiting.'']"
  note flow = startup_flow_no_token [OF assms, of c]
  show ?thesis
  proof (cases "snd (startup_flow env c)")
    case Normal
    then show ?thesis using startup_no_token(1) [OF assms, of c]
      by (simp add: startup_def snd_try_catch)
  next
    case (Thrown e)
    then show ?thesis using startup_catch_last [of c e]
      by (auto simp: startup_def fst_try_catch)
  next
    case (Exited n)
    have "no_exit ?u" "no_exit ?b" "no_exit ?g"
      by (auto intro!: no_exit_intros no_exit_branches)
    with Exited have n: "snd ?u = Normal" "snd ?b = Normal" "snd ?g = Normal"
      unfolding flow by (auto simp: snd_seq no_exit_def split: if_splits)
    then have "fst (startup_flow env c) = (fst ?u @ fst ?b @ fst ?g) @ [ProcessExit 1]"
      unfolding flow by (simp add: fst_seq)
    with Exited show ?thesis by (simp add: startup_def fst_try_catch)
  qed
qed

lemma main_bot_reached:
  assumes "ProcessOn ''unhandledRejection'' \<in> set (fst (main_bot env))"
  shows "\<exists>c pre. BotClient_bot env = Some (Inr c)
           \<and> fst (main_bot env) = pre @ fst (startup env c)
           \<and> snd (main_bot env) = snd (startup env c)"
proof -
  from assms have i: "installs (fst (main_bot env)) \<noteq> []"
    using installs_mem [of "''unhandledRejection''" "fst (main_bot env)"] by auto
  then obtain c where c: "BotClient_bot env = Some (Inr c)"
    and n: "normal (validation_bot env)" "normal (loaders_bot c)"
    by (auto simp: installs_main_bot split: option.splits sum.splits if_splits)
  have "fst (main_bot env) =
      (DotenvConfig # Console Log [''STATIC_ASCII_BANNER''] # fst (validation_bot env)
        @ New ''BotClient'' # fst (loaders_bot c) @ [ProcessOn ''unhandledRejection''])
      @ fst (startup env c)"
    using c n
    by (simp add: main_bot_unfold fst_seq construct_Inr after_construct_bot_unfold normal_def)
  moreover have "snd (main_bot env) = snd (startup env c)"
    using c n
    by (simp add: main_bot_unfold snd_seq construct_Inr after_construct_bot_unfold normal_def)
  ultimately show ?thesis using c by blast
qed

lemma no_token_reached_bot:
  assumes "\<not> truthy (BOT_TOKEN env)"
    and "ProcessOn ''unhandledRejection'' \<in> set (fst (main_bot env))"
  shows "snd (main_bot env) = Exited 1 \<and> last (fst (main_bot env)) = ProcessExit 1"
proof -
  from main_bot_reached [OF assms(2)] obtain c pre
    where f: "fst (main_bot env) = pre @ fst (startup env c)"
      and s: "snd (main_bot env) = snd (startup env c)" by blast
  from startup_no_token_last [OF assms(1), of c] obtain es
    where "fst (startup env c) = es @ [ProcessExit 1]" by blast
  with f s startup_no_token(1) [OF assms(1), of c] show ?thesis by simp
qed

lemma no_token_constructed_p0:
  assumes "\<not> truthy (token_p0 env)" and "snd (resolve_BotClient env) = Some (Inr c)"
  shows "snd (main_p0 env) = Exited 1 \<and> last (fst (main_p0 env)) = ProcessExit 1"
proof -
  from resolve_Some [OF assms(2)] have n: "normal (fst (resolve_BotClient env))" by blast
  show ?thesis
    by (simp add: main_p0_fst [OF n] main_p0_snd [OF n] assms(2) construct_Inr
          after_construct_p0_fst after_construct_p0_snd login_step_no_token [OF assms(1)])
qed

subsection \<open>The outer catch of bot.js\<close>

lemma startup_catch_logs:
  "is_function (error_logger (Some c)) \<Longrightarrow>
   LoggerCall Error [''Startup error'', e] \<in> set (fst (startup_catch c e))"
  by (auto simp: startup_catch_def error_logger_def guarded_log_def is_function_def invoke_def
        fst_seq fst_try_catch
      split: option.splits jsvalue.splits result.splits)

lemma startup_catch_silent:
  "error_logger (Some c) = None \<Longrightarrow> startup_catch c e = ([ProcessExit 1], Exited 1)"
  by (auto simp: startup_catch_def error_logger_def guarded_log_def seq_def try_catch_def skip_def
        process_exit_def
      split: option.splits)

subsection \<open>What the handlers do\<close>

lemma handler_p0_returns:
  "error_logger (Some c) = None \<or> error_logger (Some c) = Some (Callable (Returns b)) \<Longrightarrow>
   normal (handler_p0 label c x) \<and> events_ok recording (handler_p0 label c x)"
  by (auto simp: handler_p0_def error_logger_def normal_def events_ok_def recording_def
        log_error_def fst_seq snd_seq
      split: option.splits if_splits)

lemma handler_p0_throws:
  "error_logger (Some c) = Some (Callable (Throws e)) \<Longrightarrow>
   handler_p0 label c x = ([LoggerCall Error [label, x]], Thrown e)"
  by (auto simp: handler_p0_def error_logger_def invoke_def split: option.splits)

lemma handler_bot_returns:
  "normal (unhandledRejection_bot oc x) \<and> events_ok recording (unhandledRejection_bot oc x)"
  by (auto simp: handler_bot_cases normal_def events_ok_def recording_def
      split: option.splits jsvalue.splits result.splits)

subsection \<open>Awaited calls\<close>

lemma settled_first_append: "settled_first nm xs \<Longrightarrow> settled_first nm (xs @ ys)"
  by (induction xs) (auto split: event.splits)

lemma unawaited_append: "set (unawaited (xs @ ys)) \<subseteq> set (unawaited xs) \<union> set (unawaited ys)"
proof (induction xs)
  case Nil
  show ?case by simp
next
  case (Cons e xs)
  show ?case
  proof (cases e)
    case (Call nm)
    with Cons settled_first_append [of nm xs ys] show ?thesis by auto
  qed (use Cons in auto)
qed

lemma unawaited_no_call: "(\<And>nm. Call nm \<notin> set es) \<Longrightarrow> unawaited es = []"
  by (induction es) (auto split: event.splits)

lemma awaits_pair: "(\<And>nm. Call nm \<notin> set es) \<Longrightarrow> awaits S (es, st)"
  by (simp add: awaits_def unawaited_no_call)

lemma awaits_simple:
  "awaits S skip" "awaits S (throw x)" "awaits S (process_exit n)"
  "awaits S (log_info args)" "awaits S (log_warn args)" "awaits S (log_error args)"
  by (simp_all add: awaits_def log_info_def log_warn_def log_error_def)

lemma awaits_emit:
  assumes "\<And>nm. e \<noteq> Call nm"
  shows "awaits S (emit e)"
proof (cases e)
  case (Call nm)
  with assms show ?thesis by blast
qed (simp_all add: awaits_def)

lemma awaits_seq: "awaits S a \<Longrightarrow> awaits S b \<Longrightarrow> awaits S (seq a b)"
  using unawaited_append [of "fst a" "fst b"] by (auto simp: awaits_def fst_seq)

lemma awaits_try_catch: "awaits S a \<Longrightarrow> (\<And>e. awaits S (h e)) \<Longrightarrow> awaits S (try_catch a h)"
proof (cases "snd a")
  case (Thrown e)
  assume "awaits S a" "\<And>e. awaits S (h e)"
  with Thrown unawaited_append [of "fst a" "fst (h e)"] show ?thesis
    by (auto simp: awaits_def fst_try_catch)
qed (simp_all add: awaits_def fst_try_catch)

lemma awaits_seqs: "(\<And>b. b \<in> set bs \<Longrightarrow> awaits S b) \<Longrightarrow> awaits S (seqs bs)"
  by (induction bs) (simp_all add: awaits_simple awaits_seq)

lemma awaits_invoke: "(\<And>m. ev \<noteq> Call m) \<Longrightarrow> awaits S (invoke ev nm v)"
  using invoke_cases [of ev nm v] by (cases ev) (auto simp: awaits_def)

lemma awaits_call: "nm \<in> S \<Longrightarrow> awaits S (call nm v)"
  using invoke_cases [of "Call nm" nm v] by (auto simp: awaits_def call_def)

lemma awaits_await_call: "awaits S (await_call nm v)"
  using await_call_cases [of nm v] by (auto simp: awaits_def)

lemma awaits_guarded_log: "awaits S (guarded_log c lv args)"
  by (simp add: guarded_log_def awaits_simple awaits_invoke split: option.splits)

lemmas awaits_intros =
  awaits_simple awaits_emit awaits_seq awaits_try_catch awaits_invoke awaits_call
  awaits_await_call awaits_guarded_log

lemma awaits_optional_step:
  "awaits S (caller nm v) \<Longrightarrow> (\<And>args. awaits S (logf args)) \<Longrightarrow>
   awaits S (optional_step caller nm v d a logf f)"
  unfolding optional_step_def by (auto intro!: awaits_intros)

lemma awaits_steps:
  "''validateConfiguration'' \<in> S \<Longrightarrow> awaits S (validate_step env)"
  "awaits S (update_step env)" "awaits S (mongoose_step env)"
  by (auto simp: validate_step_def update_step_def mongoose_step_def
      intro!: awaits_optional_step awaits_intros)

lemma awaits_resolve: "awaits S (fst (resolve_BotClient env))"
  unfolding resolve_BotClient_def
  by (auto intro!: awaits_intros awaits_seqs split: option.splits)

lemma awaits_load_command: "awaits S (load_command c e)"
  unfolding load_command_def
  by (auto intro!: awaits_intros awaits_pair split: sum.splits)

lemma awaits_load_event: "awaits S (load_event c e)"
  unfolding load_event_def
  by (auto intro!: awaits_intros awaits_pair split: sum.splits export.splits)

lemma awaits_scan: "(\<And>e. awaits S (body e)) \<Longrightarrow> awaits S (scan dir body d a)"
  unfolding scan_def
  by (auto intro!: awaits_intros awaits_seqs split: directory.splits)

lemma awaits_try_loader: "awaits S fb \<Longrightarrow> awaits S (try_loader nm v d t fb)"
  unfolding try_loader_def
  by (auto intro!: awaits_intros split: status.splits)

lemma awaits_commands_step: "awaits S (commands_step env c)"
  unfolding commands_step_def tryLoadCommands_def scan_commands_def
  by (auto intro!: awaits_intros awaits_try_loader awaits_scan awaits_load_command)

lemma awaits_events_step: "awaits S (events_step env c)"
  unfolding events_step_def tryLoadEvents_def scan_events_def
  by (auto intro!: awaits_intros awaits_try_loader awaits_scan awaits_load_event)

lemma awaits_registerEvents_step: "awaits S (registerEvents_step env c)"
  unfolding registerEvents_step_def
  by (auto intro!: awaits_intros)

lemma awaits_launch_file: "awaits S (fst (launch_file p r))"
  unfolding launch_file_def Let_def
  by (auto intro!: awaits_intros split: sum.splits launcher.splits)

lemma awaits_launch_loop: "awaits S (fst (launch_loop ps))"
  by (induction ps rule: launch_loop.induct)
     (auto simp: awaits_simple awaits_launch_file intro!: awaits_seq)

lemma awaits_launch_package: "awaits S (launch_package env)"
  unfolding launch_package_def Let_def
  by (auto intro!: awaits_intros split: sum.splits launcher.splits)

lemma awaits_dashboard_step: "awaits S (dashboard_step env)"
  unfolding dashboard_step_def tryLaunchDashboard_def
  by (auto intro!: awaits_intros awaits_launch_loop awaits_launch_package)

lemma awaits_login_step: "awaits S (login_step env c)"
  unfolding login_step_def
  by (auto intro!: awaits_intros)

lemma awaits_construct: "(\<And>c. awaits S (k c)) \<Longrightarrow> awaits S (construct ctor k)"
  unfolding construct_def
  by (auto intro!: awaits_intros awaits_pair split: option.splits sum.splits)

lemma awaits_after_construct_p0: "awaits S (after_construct_p0 env c)"
  unfolding after_construct_p0_def
  by (rule awaits_seqs)
     (auto intro!: awaits_emit awaits_commands_step awaits_events_step awaits_registerEvents_step
        awaits_dashboard_step awaits_login_step)

lemma awaits_main_p0: "''validateConfiguration'' \<in> S \<Longrightarrow> awaits S (main_p0 env)"
  unfolding main_p0_def
  by (rule awaits_seqs)
     (auto intro!: awaits_emit awaits_resolve awaits_steps awaits_construct
        awaits_after_construct_p0)

lemma awaits_validation_bot: "''validateConfiguration'' \<in> S \<Longrightarrow> awaits S (validation_bot env)"
  unfolding validation_bot_def by (auto intro!: awaits_intros)

lemma awaits_load_step: "nm \<in> S \<Longrightarrow> awaits S (load_step c nm v msg)"
  unfolding load_step_def by (auto intro!: awaits_intros)

lemma awaits_loaders_bot:
  "{''client.loadCommands'', ''client.loadCommandTests'', ''client.loadEvents''} \<subseteq> S \<Longrightarrow>
   awaits S (loaders_bot c)"
  unfolding loaders_bot_def
  by (rule awaits_seqs) (auto intro!: awaits_load_step)

lemma awaits_branches: "awaits S (dashboard_branch env c)" "awaits S (database_branch env c)"
  unfolding dashboard_branch_def database_branch_def
  by (auto intro!: awaits_intros split: module.splits)

lemma awaits_login_bot: "awaits S (login_bot env c)"
proof (cases "core_BotClient env")
  case Missing
  then show ?thesis
    by (simp add: login_bot_def MinimalBotClient_login_def awaits_def step_of_def)
next
  case (Exports x)
  then show ?thesis by (simp add: login_bot_def awaits_await_call)
qed

lemma awaits_startup: "awaits S (startup env c)"
  unfolding startup_def startup_flow_def startup_catch_def
  by (rule awaits_try_catch, rule awaits_seqs)
     (auto intro!: awaits_intros awaits_branches awaits_login_bot)

lemma awaits_after_construct_bot:
  "{''client.loadCommands'', ''client.loadCommandTests'', ''client.loadEvents''} \<subseteq> S \<Longrightarrow>
   awaits S (after_construct_bot env c)"
  unfolding after_construct_bot_def
  by (rule awaits_seqs) (auto intro!: awaits_emit awaits_loaders_bot awaits_startup)

lemma awaits_banner_bot: "awaits S (printStartupBanner USE_FIGLET f)"
  by (simp add: banner_bot awaits_def)

lemma awaits_main_bot:
  "{''validateConfiguration'', ''client.loadCommands'', ''client.loadCommandTests'',
    ''client.loadEvents''} \<subseteq> S \<Longrightarrow> awaits S (main_bot env)"
  unfolding main_bot_def
  by (rule awaits_seqs)
     (auto intro!: awaits_emit awaits_banner_bot awaits_validation_bot awaits_construct
        awaits_after_construct_bot)

section \<open>Claims\<close>

text \<open>
  C1, as stated: with no token set, the script itself terminates the process
  with a non-zero status before login. A run of bot.js with no token and a
  client class whose constructor throws ends with that exception leaving the
  main function, and \<^verbatim>\<open>process.exit\<close> is never called.
\<close>

theorem token_unset_counterexample:
  "\<not> truthy (BOT_TOKEN (env_bot0\<lparr>BOT_TOKEN := None,
                                    core_BotClient := Exports (Some (Inl ''constructor failed''))\<rparr>))
   \<and> main_bot (env_bot0\<lparr>BOT_TOKEN := None,
                          core_BotClient := Exports (Some (Inl ''constructor failed''))\<rparr>) =
       ([DotenvConfig, Console Log [''STATIC_ASCII_BANNER''], Call ''validateConfiguration'',
         New ''BotClient''], Thrown ''constructor failed'')
   \<and> \<not> exit_called (main_bot (env_bot0\<lparr>BOT_TOKEN := None,
                          core_BotClient := Exports (Some (Inl ''constructor failed''))\<rparr>))"
  by code_simp

text \<open>
  C1, amended. When no token is set (bot.js: \<^verbatim>\<open>BOT_TOKEN\<close> unset or empty;
  part_000: both \<^verbatim>\<open>BOT_TOKEN\<close> and \<^verbatim>\<open>TOKEN\<close>), no run invokes the client's
  \<^verbatim>\<open>login\<close> and no run returns normally: a run ends with \<^verbatim>\<open>process.exit(1)\<close>,
  or with an exception that leaves the main function before any handler is
  registered. Every run of bot.js that gets as far as registering its handler,
  and every run of part_000 whose client class constructs a client, ends
  with \<^verbatim>\<open>process.exit(1)\<close> as its last action.
\<close>

theorem token_unset_ends_before_login:
  "(\<not> truthy (BOT_TOKEN envb) \<longrightarrow>
      ends_before_login (main_bot envb)
      \<and> (ProcessOn ''unhandledRejection'' \<in> set (fst (main_bot envb)) \<longrightarrow>
           snd (main_bot envb) = Exited 1 \<and> last (fst (main_bot envb)) = ProcessExit 1))
   \<and> (\<not> truthy (token_p0 envp) \<longrightarrow>
        ends_before_login (main_p0 envp)
        \<and> (snd (resolve_BotClient envp) = Some (Inr c) \<longrightarrow>
             snd (main_p0 envp) = Exited 1 \<and> last (fst (main_p0 envp)) = ProcessExit 1))"
  using ends_before_login_bot [of envb] ends_before_login_p0 [of envp]
    no_token_reached_bot [of envb] no_token_constructed_p0 [of envp c]
  by blast

theorem token_unset_ends_before_login_witness:
  "\<not> truthy (BOT_TOKEN (env_bot0\<lparr>BOT_TOKEN := None\<rparr>))
   \<and> ProcessOn ''unhandledRejection'' \<in> set (fst (main_bot (env_bot0\<lparr>BOT_TOKEN := None\<rparr>)))
   \<and> ends_before_login (main_bot (env_bot0\<lparr>BOT_TOKEN := None\<rparr>))
   \<and> snd (main_bot (env_bot0\<lparr>BOT_TOKEN := None\<rparr>)) = Exited 1
   \<and> last (fst (main_bot (env_bot0\<lparr>BOT_TOKEN := None\<rparr>))) = ProcessExit 1
   \<and> \<not> truthy (token_p0 (env_p00\<lparr>BOT_TOKEN_p0 := None\<rparr>))
   \<and> snd (resolve_BotClient (env_p00\<lparr>BOT_TOKEN_p0 := None\<rparr>)) = Some (Inr bare_client)
   \<and> ends_before_login (main_p0 (env_p00\<lparr>BOT_TOKEN_p0 := None\<rparr>))
   \<and> snd (main_p0 (env_p00\<lparr>BOT_TOKEN_p0 := None\<rparr>)) = Exited 1
   \<and> last (fst (main_p0 (env_p00\<lparr>BOT_TOKEN_p0 := None\<rparr>))) = ProcessExit 1"
proof -
  have hb: "\<not> truthy (BOT_TOKEN (env_bot0\<lparr>BOT_TOKEN := None\<rparr>))"
    by (simp add: truthy_def)
  have rb: "ProcessOn ''unhandledRejection'' \<in> set (fst (main_bot (env_bot0\<lparr>BOT_TOKEN := None\<rparr>)))"
    by code_simp
  have hp: "\<not> truthy (token_p0 (env_p00\<lparr>BOT_TOKEN_p0 := None\<rparr>))"
    by (simp add: truthy_def token_p0_def env_p00_def)
  have rp: "snd (resolve_BotClient (env_p00\<lparr>BOT_TOKEN_p0 := None\<rparr>)) = Some (Inr bare_client)"
    by (simp add: resolve_BotClient_def env_p00_def)
  show ?thesis
    using hb rb hp rp
      token_unset_ends_before_login [of "env_bot0\<lparr>BOT_TOKEN := None\<rparr>"
        "env_p00\<lparr>BOT_TOKEN_p0 := None\<rparr>" bare_client]
    by blast
qed

text \<open>
  C2, as stated: a failure of the update check is never fatal. In bot.js the call
  sits in the outer try block, whose catch block ends the process.
\<close>

theorem update_check_failure_counterexample:
  "or_noop (botUtils_checkForUpdates (env_bot0\<lparr>botUtils_checkForUpdates := failing\<rparr>))
     = Some (Callable (Throws ''boom''))
   \<and> main_bot (env_bot0\<lparr>botUtils_checkForUpdates := failing\<rparr>) =
     ([DotenvConfig, Console Log [''STATIC_ASCII_BANNER''], Call ''validateConfiguration'',
       New ''BotClient'', Call ''client.loadCommands'', Call ''client.loadCommandTests'',
       Call ''client.loadEvents'', ProcessOn ''unhandledRejection'', Call ''checkForUpdates'',
       Settled ''checkForUpdates'', LoggerCall Error [''Startup error'', ''boom''], ProcessExit 1],
      Exited 1)"
  by code_simp

text \<open>
  C2, amended. In part_000 a failure of the update check is caught and logged as
  a warning, and the run goes on with the database step and everything after
  it. In bot.js the failure is caught by the outer catch of the startup flow:
  \<^verbatim>\<open>login\<close> is never invoked, no run returns normally, and every run that got as
  far as the update check ends with \<^verbatim>\<open>process.exit(1)\<close>. On the way the catch
  passes the error to the \<^verbatim>\<open>error\<close> method of the client's logger when that is a
  function, and logs nothing when the client has no such method.
\<close>

theorem update_check_failure_by_variant:
  "(checkForUpdates_p0 envp = Some (Callable (Throws e)) \<longrightarrow>
      update_step envp =
        ([Call ''checkForUpdates'', Settled ''checkForUpdates'',
          Console Warn [''[WARN]'', ''Error while checking for updates (continuing):'', e]], Normal)
      \<and> (normal (fst (resolve_BotClient envp)) \<longrightarrow>
           fst (main_p0 envp) =
             DotenvConfig # Console Log [''ASCII_BANNER''] # fst (fst (resolve_BotClient envp))
               @ fst (validate_step envp)
               @ [Call ''checkForUpdates'', Settled ''checkForUpdates'',
                  Console Warn [''[WARN]'', ''Error while checking for updates (continuing):'', e]]
               @ fst (mongoose_step envp)
               @ fst (construct (snd (resolve_BotClient envp)) (after_construct_p0 envp))
           \<and> snd (main_p0 envp) =
               snd (construct (snd (resolve_BotClient envp)) (after_construct_p0 envp))))
   \<and> (or_noop (botUtils_checkForUpdates envb) = Some (Callable (Throws e)) \<longrightarrow>
        \<not> login_invoked (main_bot envb) \<and> snd (main_bot envb) \<noteq> Normal
        \<and> (ProcessOn ''unhandledRejection'' \<in> set (fst (main_bot envb)) \<longrightarrow>
             snd (main_bot envb) = Exited 1
             \<and> Call ''checkForUpdates'' \<in> set (fst (main_bot envb))
             \<and> (BotClient_bot envb = Some (Inr c) \<longrightarrow>
                  startup envb c =
                    (Call ''checkForUpdates'' # Settled ''checkForUpdates''
                       # fst (startup_catch c e), Exited 1)
                  \<and> (is_function (error_logger (Some c)) \<longrightarrow>
                       LoggerCall Error [''Startup error'', e] \<in> set (fst (main_bot envb)))
                  \<and> (error_logger (Some c) = None \<longrightarrow>
                       startup envb c =
                         ([Call ''checkForUpdates'', Settled ''checkForUpdates'', ProcessExit 1],
                          Exited 1)))))"
proof -
  have p0: "update_step envp =
        ([Call ''checkForUpdates'', Settled ''checkForUpdates'',
          Console Warn [''[WARN]'', ''Error while checking for updates (continuing):'', e]], Normal)"
    if "checkForUpdates_p0 envp = Some (Callable (Throws e))"
    using that by (simp add: update_step_def optional_step_await_throws)
  have logs: "LoggerCall Error [''Startup error'', e] \<in> set (fst (main_bot envb))"
    if u: "or_noop (botUtils_checkForUpdates envb) = Some (Callable (Throws e))"
      and r: "ProcessOn ''unhandledRejection'' \<in> set (fst (main_bot envb))"
      and c: "BotClient_bot envb = Some (Inr c)"
      and l: "is_function (error_logger (Some c))"
  proof -
    have "LoggerCall Error [''Startup error'', e] \<in> set (fst (startup envb c))"
      using startup_catch_logs [OF l, of e] by (simp add: update_throws_startup [OF u])
    with reached_bot [OF r c] show ?thesis by blast
  qed
  have silent: "startup envb c =
        ([Call ''checkForUpdates'', Settled ''checkForUpdates'', ProcessExit 1], Exited 1)"
    if u: "or_noop (botUtils_checkForUpdates envb) = Some (Callable (Throws e))"
      and l: "error_logger (Some c) = None"
    by (simp add: update_throws_startup [OF u] startup_catch_silent [OF l])
  show ?thesis
    using p0 update_throws_bot [of envb e] update_throws_startup [of envb e c] logs silent
    by (auto simp: main_p0_fst main_p0_snd)
qed

theorem update_check_failure_by_variant_witness:
  "checkForUpdates_p0 (env_p00\<lparr>dashboard_checkForUpdates := failing\<rparr>)
     = Some (Callable (Throws ''boom''))
   \<and> normal (fst (resolve_BotClient (env_p00\<lparr>dashboard_checkForUpdates := failing\<rparr>)))
   \<and> update_step (env_p00\<lparr>dashboard_checkForUpdates := failing\<rparr>) =
        ([Call ''checkForUpdates'', Settled ''checkForUpdates'',
          Console Warn [''[WARN]'', ''Error while checking for updates (continuing):'', ''boom'']],
         Normal)
   \<and> snd (main_p0 (env_p00\<lparr>dashboard_checkForUpdates := failing\<rparr>)) = Normal
   \<and> or_noop (botUtils_checkForUpdates (env_bot0\<lparr>botUtils_checkForUpdates := failing\<rparr>))
        = Some (Callable (Throws ''boom''))
   \<and> ProcessOn ''unhandledRejection''
        \<in> set (fst (main_bot (env_bot0\<lparr>botUtils_checkForUpdates := failing\<rparr>)))
   \<and> BotClient_bot (env_bot0\<lparr>botUtils_checkForUpdates := failing\<rparr>) = Some (Inr MinimalBotClient)
   \<and> is_function (error_logger (Some MinimalBotClient))
   \<and> snd (main_bot (env_bot0\<lparr>botUtils_checkForUpdates := failing\<rparr>)) = Exited 1
   \<and> \<not> login_invoked (main_bot (env_bot0\<lparr>botUtils_checkForUpdates := failing\<rparr>))
   \<and> LoggerCall Error [''Startup error'', ''boom'']
        \<in> set (fst (main_bot (env_bot0\<lparr>botUtils_checkForUpdates := failing\<rparr>)))
   \<and> or_noop (botUtils_checkForUpdates
         (env_bot0\<lparr>botUtils_checkForUpdates := failing,
                    core_BotClient := Exports (Some (Inr (bare_client\<lparr>logger := None\<rparr>)))\<rparr>))
        = Some (Callable (Throws ''boom''))
   \<and> error_logger (Some (bare_client\<lparr>logger := None\<rparr>)) = None
   \<and> startup (env_bot0\<lparr>botUtils_checkForUpdates := failing,
                  core_BotClient := Exports (Some (Inr (bare_client\<lparr>logger := None\<rparr>)))\<rparr>)
        (bare_client\<lparr>logger := None\<rparr>) =
        ([Call ''checkForUpdates'', Settled ''checkForUpdates'', ProcessExit 1], Exited 1)"
proof -
  let ?p = "env_p00\<lparr>dashboard_checkForUpdates := failing\<rparr>"
  let ?b = "env_bot0\<lparr>botUtils_checkForUpdates := failing\<rparr>"
  let ?q = "bare_client\<lparr>logger := None\<rparr>"
  let ?s = "env_bot0\<lparr>botUtils_checkForUpdates := failing,
                    core_BotClient := Exports (Some (Inr ?q))\<rparr>"
  have h1: "checkForUpdates_p0 ?p = Some (Callable (Throws ''boom''))"
    by (simp add: checkForUpdates_p0_def optional_helper_def env_p00_def failing_def)
  have h2: "normal (fst (resolve_BotClient ?p))"
    by (simp add: resolve_BotClient_def env_p00_def normal_def)
  have h3: "or_noop (botUtils_checkForUpdates ?b) = Some (Callable (Throws ''boom''))"
    by (simp add: or_noop_def env_bot0_def failing_def)
  have h4: "snd (construct (snd (resolve_BotClient ?p)) (after_construct_p0 ?p)) = Normal"
    by (simp add: resolve_BotClient_def env_p00_def construct_Inr after_construct_p0_snd
          login_step_no_function token_p0_def truthy_def is_function_def bare_client_def)
  have h5: "ProcessOn ''unhandledRejection'' \<in> set (fst (main_bot ?b))"
    by code_simp
  have h6: "BotClient_bot ?b = Some (Inr MinimalBotClient)"
    by (simp add: BotClient_bot_def env_bot0_def)
  have h7: "is_function (error_logger (Some MinimalBotClient))"
    by (simp add: error_logger_def MinimalBotClient_def is_function_def)
  have h8: "or_noop (botUtils_checkForUpdates ?s) = Some (Callable (Throws ''boom''))"
    by (simp add: or_noop_def env_bot0_def failing_def)
  have h9: "error_logger (Some ?q) = None"
    by (simp add: error_logger_def)
  have h10: "ProcessOn ''unhandledRejection'' \<in> set (fst (main_bot ?s))"
    by code_simp
  have h11: "BotClient_bot ?s = Some (Inr ?q)"
    by (simp add: BotClient_bot_def env_bot0_def)
  have quiet: "startup ?s ?q =
      ([Call ''checkForUpdates'', Settled ''checkForUpdates'', ProcessExit 1], Exited 1)"
    using h8 h9 h10 h11 update_check_failure_by_variant [of ?p "''boom''" ?s ?q]
    by blast
  show ?thesis
    using h1 h2 h3 h4 h5 h6 h7 h8 h9 quiet
      update_check_failure_by_variant [of ?p "''boom''" ?b MinimalBotClient]
    by simp
qed

text \<open>
  C3, as stated: whenever the configuration validator throws, the error is caught
  and logged and the run continues. In bot.js the catch block ends the process.
\<close>

theorem validation_failure_counterexample:
  "or_noop (validateConfiguration_module (env_bot0\<lparr>validateConfiguration_module := failing\<rparr>))
     = Some (Callable (Throws ''boom''))
   \<and> main_bot (env_bot0\<lparr>validateConfiguration_module := failing\<rparr>) =
     ([DotenvConfig, Console Log [''STATIC_ASCII_BANNER''], Call ''validateConfiguration'',
       Console Error [''Configuration validation failed:'', ''boom''], ProcessExit 1],
      Exited 1)"
  by (simp add: env_bot0_def failing_def or_noop_def main_bot_unfold validation_bot_def call_def
        invoke_def try_catch_def seq_def emit_def process_exit_def)

text \<open>
  C3, amended. In part_000 an error of the validator is caught and logged and the
  run goes on with the update check and the later steps; in bot.js it is caught
  and logged and the process exits with status 1 before the client is
  constructed.
\<close>

theorem validation_failure_by_variant:
  "(validateConfiguration_p0 envp = Some (Callable (Throws e)) \<longrightarrow>
      validate_step envp =
        ([Call ''validateConfiguration'',
          Console Error [''[ERROR]'', ''Configuration validation failed:'', e]], Normal)
      \<and> (normal (fst (resolve_BotClient envp)) \<longrightarrow>
           fst (main_p0 envp) =
             DotenvConfig # Console Log [''ASCII_BANNER''] # fst (fst (resolve_BotClient envp))
               @ [Call ''validateConfiguration'',
                  Console Error [''[ERROR]'', ''Configuration validation failed:'', e]]
               @ fst (update_step envp) @ fst (mongoose_step envp)
               @ fst (construct (snd (resolve_BotClient envp)) (after_construct_p0 envp))
           \<and> snd (main_p0 envp) =
               snd (construct (snd (resolve_BotClient envp)) (after_construct_p0 envp))))
   \<and> (or_noop (validateConfiguration_module envb) = Some (Callable (Throws e)) \<longrightarrow>
        main_bot envb =
          ([DotenvConfig, Console Log [''STATIC_ASCII_BANNER''], Call ''validateConfiguration'',
            Console Error [''Configuration validation failed:'', e], ProcessExit 1],
           Exited 1))"
proof -
  have p0: "validate_step envp =
        ([Call ''validateConfiguration'',
          Console Error [''[ERROR]'', ''Configuration validation failed:'', e]], Normal)"
    if "validateConfiguration_p0 envp = Some (Callable (Throws e))"
    using that by (simp add: validate_step_def optional_step_throws)
  have bot: "main_bot envb =
          ([DotenvConfig, Console Log [''STATIC_ASCII_BANNER''], Call ''validateConfiguration'',
            Console Error [''Configuration validation failed:'', e], ProcessExit 1],
           Exited 1)"
    if "or_noop (validateConfiguration_module envb) = Some (Callable (Throws e))"
    using that
    by (simp add: main_bot_unfold validation_bot_def call_def invoke_def try_catch_def seq_def
          emit_def process_exit_def)
  show ?thesis
    using p0 bot by (auto simp: main_p0_fst main_p0_snd)
qed

theorem validation_failure_by_variant_witness:
  "validateConfiguration_p0 (env_p00\<lparr>config_validateConfiguration := failing\<rparr>)
     = Some (Callable (Throws ''boom''))
   \<and> normal (fst (resolve_BotClient (env_p00\<lparr>config_validateConfiguration := failing\<rparr>)))
   \<and> validate_step (env_p00\<lparr>config_validateConfiguration := failing\<rparr>) =
        ([Call ''validateConfiguration'',
          Console Error [''[ERROR]'', ''Configuration validation failed:'', ''boom'']], Normal)
   \<and> snd (main_p0 (env_p00\<lparr>config_validateConfiguration := failing\<rparr>)) = Normal
   \<and> or_noop (validateConfiguration_module (env_bot0\<lparr>validateConfiguration_module := failing\<rparr>))
        = Some (Callable (Throws ''boom''))
   \<and> snd (main_bot (env_bot0\<lparr>validateConfiguration_module := failing\<rparr>)) = Exited 1"
proof -
  let ?p = "env_p00\<lparr>config_validateConfiguration := failing\<rparr>"
  let ?b = "env_bot0\<lparr>validateConfiguration_module := failing\<rparr>"
  have h1: "validateConfiguration_p0 ?p = Some (Callable (Throws ''boom''))"
    by (simp add: validateConfiguration_p0_def optional_helper_def env_p00_def failing_def)
  have h2: "normal (fst (resolve_BotClient ?p))"
    by (simp add: resolve_BotClient_def env_p00_def normal_def)
  have h3: "or_noop (validateConfiguration_module ?b) = Some (Callable (Throws ''boom''))"
    by (simp add: or_noop_def env_bot0_def failing_def)
  have h4: "snd (construct (snd (resolve_BotClient ?p)) (after_construct_p0 ?p)) = Normal"
    by (simp add: resolve_BotClient_def env_p00_def construct_Inr after_construct_p0_snd
          login_step_no_function token_p0_def truthy_def is_function_def bare_client_def)
  show ?thesis
    using h1 h2 h3 h4 validation_failure_by_variant [of ?p "''boom''" ?b]
    by simp
qed

text \<open>
  C4, as stated: a BotClient module that cannot be resolved ends the process. In
  bot.js the fallback class takes its place and the run logs in.
\<close>

theorem missing_BotClient_counterexample:
  "core_BotClient env_bot0 = Missing
   \<and> main_bot env_bot0 =
     ([DotenvConfig, Console Log [''STATIC_ASCII_BANNER''], Call ''validateConfiguration'',
       New ''BotClient'', Call ''client.loadCommands'', Call ''client.loadCommandTests'',
       Call ''client.loadEvents'', ProcessOn ''unhandledRejection'', Call ''checkForUpdates'',
       Settled ''checkForUpdates'', Call ''initializeMongoose'', Settled ''initializeMongoose'',
       Call ''client.login'', LoggerCall Log [''Pretend login with token:'', ''abc123...''],
       Settled ''client.login'', LoggerCall Log [''Bot started successfully.'']],
      Normal)"
  by code_simp

text \<open>
  C4, amended. In part_000, when the BotClient module cannot be required and
  discord.js cannot be required either, the process exits with status 1 right
  after the banner, before validation and every later step; when discord.js is
  there, \<^verbatim>\<open>FallbackClient\<close> is bound and startup goes on. In bot.js
  \<^verbatim>\<open>MinimalBotClient\<close> is bound and startup goes on through the loaders into the
  startup flow.
\<close>

theorem missing_BotClient_by_variant:
  "(require_chain [local_BotClient envp, alias_BotClient envp] = None \<longrightarrow>
      (discord_js envp = None \<longrightarrow>
         main_p0 envp =
           ([DotenvConfig, Console Log [''ASCII_BANNER''],
             Console Error [''[ERROR]'', ''Could not require BotClient from src/client/BotClient. Make sure the file exists and exports { BotClient }.''],
             Console Error [''[ERROR]'', ''discord.js not installed. Install discord.js or provide your BotClient implementation.''],
             ProcessExit 1], Exited 1))
      \<and> (\<forall>base. discord_js envp = Some base \<longrightarrow>
             snd (resolve_BotClient envp) = Some (FallbackClient base)
             \<and> normal (fst (resolve_BotClient envp))
             \<and> \<not> exit_called (fst (resolve_BotClient envp))
             \<and> snd (main_p0 envp) =
                 snd (construct (Some (FallbackClient base)) (after_construct_p0 envp))))
   \<and> (core_BotClient envb = Missing \<longrightarrow>
        BotClient_bot envb = Some (Inr MinimalBotClient)
        \<and> (normal (validation_bot envb) \<longrightarrow>
             main_bot envb =
               (DotenvConfig # Console Log [''STATIC_ASCII_BANNER''] # fst (validation_bot envb)
                  @ [New ''BotClient'', Call ''client.loadCommands'',
                     Call ''client.loadCommandTests'', Call ''client.loadEvents'',
                     ProcessOn ''unhandledRejection'']
                  @ fst (startup envb MinimalBotClient),
                snd (startup envb MinimalBotClient))))"
proof -
  have a: "main_p0 envp =
           ([DotenvConfig, Console Log [''ASCII_BANNER''],
             Console Error [''[ERROR]'', ''Could not require BotClient from src/client/BotClient. Make sure the file exists and exports { BotClient }.''],
             Console Error [''[ERROR]'', ''discord.js not installed. Install discord.js or provide your BotClient implementation.''],
             ProcessExit 1], Exited 1)"
    if "require_chain [local_BotClient envp, alias_BotClient envp] = None" "discord_js envp = None"
  proof -
    have "\<not> normal (fst (resolve_BotClient envp))"
      using that by (simp add: resolve_BotClient_def normal_def snd_seq)
    then show ?thesis by (rule main_p0_unresolved)
  qed
  have b: "snd (resolve_BotClient envp) = Some (FallbackClient base)
             \<and> normal (fst (resolve_BotClient envp))
             \<and> \<not> exit_called (fst (resolve_BotClient envp))
             \<and> snd (main_p0 envp) =
                 snd (construct (Some (FallbackClient base)) (after_construct_p0 envp))"
    if "require_chain [local_BotClient envp, alias_BotClient envp] = None"
      "discord_js envp = Some base" for base
  proof -
    have r: "snd (resolve_BotClient envp) = Some (FallbackClient base)"
      using that by (simp add: resolve_BotClient_def)
    from resolve_Some [OF r] have n: "normal (fst (resolve_BotClient envp))"
      and e: "events_ok benign (fst (resolve_BotClient envp))" by blast+
    from e have "\<not> exit_called (fst (resolve_BotClient envp))"
      by (rule benign_no_exit_called)
    with r n show ?thesis by (simp add: main_p0_snd [OF n])
  qed
  have c: "BotClient_bot envb = Some (Inr MinimalBotClient)" if "core_BotClient envb = Missing"
    using that by (simp add: BotClient_bot_def)
  have d: "main_bot envb =
               (DotenvConfig # Console Log [''STATIC_ASCII_BANNER''] # fst (validation_bot envb)
                  @ [New ''BotClient'', Call ''client.loadCommands'',
                     Call ''client.loadCommandTests'', Call ''client.loadEvents'',
                     ProcessOn ''unhandledRejection'']
                  @ fst (startup envb MinimalBotClient),
                snd (startup envb MinimalBotClient))"
    if "core_BotClient envb = Missing" "normal (validation_bot envb)"
    using that c
    by (simp add: main_bot_unfold normal_def seq_def construct_Inr after_construct_bot_unfold
          loaders_Minimal emit_def)
  show ?thesis using a b c d by blast
qed

theorem missing_BotClient_by_variant_witness:
  "require_chain [local_BotClient (env_p00\<lparr>local_BotClient := Missing\<rparr>),
                  alias_BotClient (env_p00\<lparr>local_BotClient := Missing\<rparr>)] = None
   \<and> discord_js (env_p00\<lparr>local_BotClient := Missing\<rparr>) = None
   \<and> snd (main_p0 (env_p00\<lparr>local_BotClient := Missing\<rparr>)) = Exited 1
   \<and> discord_js (env_p00\<lparr>local_BotClient := Missing, discord_js := Some (Inr bare_client)\<rparr>)
        = Some (Inr bare_client)
   \<and> normal (fst (resolve_BotClient
        (env_p00\<lparr>local_BotClient := Missing, discord_js := Some (Inr bare_client)\<rparr>)))
   \<and> core_BotClient env_bot0 = Missing
   \<and> normal (validation_bot env_bot0)
   \<and> BotClient_bot env_bot0 = Some (Inr MinimalBotClient)"
proof -
  let ?p = "env_p00\<lparr>local_BotClient := Missing\<rparr>"
  let ?q = "env_p00\<lparr>local_BotClient := Missing, discord_js := Some (Inr bare_client)\<rparr>"
  have h1: "require_chain [local_BotClient ?p, alias_BotClient ?p] = None"
    by (simp add: env_p00_def)
  have h2: "discord_js ?p = None" by (simp add: env_p00_def)
  have h3: "require_chain [local_BotClient ?q, alias_BotClient ?q] = None"
    by (simp add: env_p00_def)
  have h4: "discord_js ?q = Some (Inr bare_client)" by simp
  have h5: "core_BotClient env_bot0 = Missing" by (simp add: env_bot0_def)
  have h6: "normal (validation_bot env_bot0)" by code_simp
  show ?thesis
    using h1 h2 h3 h4 h5 h6
      missing_BotClient_by_variant [of ?p env_bot0]
      missing_BotClient_by_variant [of ?q env_bot0]
    by simp
qed

text \<open>
  C5, as stated: every run performs environment load, banner, validation, update
  check, dashboard or database, command and event loading, login, in this
  order, and begins no step before the earlier ones have completed. A complete
  run of bot.js loads commands and events before it checks for updates; and
  with a client class that has loaders of its own, it goes on from each loader
  call without awaiting it.
\<close>

theorem startup_order_counterexample:
  "steps (fst (main_bot env_bot0)) =
     [EnvLoad, Banner, Validation, Commands, Commands, Events, UpdateCheck, Database, Login]
   \<and> \<not> in_order spec_rank (main_bot env_bot0)
   \<and> unawaited (fst (main_bot (env_bot0\<lparr>core_BotClient := Exports (Some (Inr full_client))\<rparr>))) =
       [''validateConfiguration'', ''client.loadCommands'', ''client.loadEvents'']"
  by code_simp

text \<open>
  C5, amended. Every run of bot.js performs the steps it gets to in the order
  environment load, banner, validation, command loading, event loading, update
  check, dashboard or database, login. Every run of part_000 performs the
  steps it gets to in the order environment load, banner, validation, update
  check, database initialization, command loading, event loading, dashboard
  launch, login. In part_000 every call of a collaborator is awaited, so that
  it has settled before anything of a later step happens, except the call of
  the configuration validator, which is synchronous. In bot.js the same holds
  except for the validator and the three loader calls \<^verbatim>\<open>client.loadCommands\<close>,
  \<^verbatim>\<open>client.loadCommandTests\<close> and \<^verbatim>\<open>client.loadEvents\<close>, which are made without
  \<^verbatim>\<open>await\<close>.
\<close>

theorem startup_order_by_variant:
  "in_order bot_rank (main_bot envb) \<and> in_order p0_rank (main_p0 envp)
   \<and> awaits {''validateConfiguration''} (main_p0 envp)
   \<and> awaits {''validateConfiguration'', ''client.loadCommands'', ''client.loadCommandTests'',
               ''client.loadEvents''} (main_bot envb)"
  using rank_main_bot [of envb] rank_main_p0 [of envp]
    awaits_main_p0 [of "{''validateConfiguration''}" envp]
    awaits_main_bot [of "{''validateConfiguration'', ''client.loadCommands'',
      ''client.loadCommandTests'', ''client.loadEvents''}" envb]
  by (simp add: in_order_ranked)

theorem startup_order_by_variant_witness:
  "in_order bot_rank (main_bot env_bot0) \<and> in_order p0_rank (main_p0 env_p0_full)
   \<and> steps (fst (main_bot env_bot0)) =
       [EnvLoad, Banner, Validation, Commands, Commands, Events, UpdateCheck, Database, Login]
   \<and> steps (fst (main_p0 env_p0_full)) =
       [EnvLoad, Banner, Validation, UpdateCheck, Database, Commands, Events, Dashboard, Login]
   \<and> awaits {''validateConfiguration''} (main_p0 env_p0_full)
   \<and> unawaited (fst (main_p0 env_p0_full)) = [''validateConfiguration'']
   \<and> awaits {''validateConfiguration'', ''client.loadCommands'', ''client.loadCommandTests'',
               ''client.loadEvents''} (main_bot env_bot0)
   \<and> unawaited (fst (main_bot env_bot0)) =
       [''validateConfiguration'', ''client.loadCommands'', ''client.loadCommandTests'',
        ''client.loadEvents'']"
proof -
  have b: "steps (fst (main_bot env_bot0)) =
       [EnvLoad, Banner, Validation, Commands, Commands, Events, UpdateCheck, Database, Login]"
    by code_simp
  have p: "steps (fst (main_p0 env_p0_full)) =
       [EnvLoad, Banner, Validation, UpdateCheck, Database, Commands, Events, Dashboard, Login]"
    by code_simp
  have up: "unawaited (fst (main_p0 env_p0_full)) = [''validateConfiguration'']"
    by code_simp
  have ub: "unawaited (fst (main_bot env_bot0)) =
       [''validateConfiguration'', ''client.loadCommands'', ''client.loadCommandTests'',
        ''client.loadEvents'']"
    by code_simp
  show ?thesis using b p up ub startup_order_by_variant [of env_bot0 env_p0_full] by simp
qed

text \<open>
  C6, as stated: of N handler files of which M fail to load, the directory scan
  registers exactly N - M. A command file that loads but exports no \<^verbatim>\<open>name\<close> is
  skipped without a warning.
\<close>

theorem directory_scan_counterexample:
  "commands_dir env_unnamed_command = Entries [(''ping.js'', Inr (Obj None True))]
   \<and> length (js_files [(''ping.js'', Inr (Obj None True))]) = 1
   \<and> length (filter fails_to_load (js_files [(''ping.js'', Inr (Obj None True))])) = 0
   \<and> is_function (commands_set bare_client)
   \<and> scan_commands env_unnamed_command bare_client =
        ([Require ''src/commands/ping.js'',
          Console Log [''[INFO]'', ''Commands loaded from src/commands (fallback).'']], Normal)
   \<and> count is_registration (scan_commands env_unnamed_command bare_client) = 0"
  by code_simp

text \<open>
  C6, amended. The directory scan requires every one of the N script files of
  the directory, whatever happened to the earlier ones, and always runs to its
  end. With a working registry it calls \<^verbatim>\<open>commands.set\<close> once for each file that
  exports a truthy \<^verbatim>\<open>name\<close> (respectively \<^verbatim>\<open>client.on\<close> once for each file that
  exports a function or an object with an \<^verbatim>\<open>execute\<close> function) and logs one
  warning for each file whose require throws or that exports null; a file
  that loads but exports neither is skipped silently. So exactly N - M
  registrations and M warnings result when every file that loads is of the
  registered kind.
\<close>

theorem directory_scan_isolates_failures:
  assumes "commands_dir env = Entries cs" and "events_dir env = Entries es"
  shows "normal (scan_commands env c) \<and> normal (scan_events env c)
    \<and> count is_require (scan_commands env c) = length (js_files cs)
    \<and> count is_require (scan_events env c) = length (js_files es)
    \<and> (commands_set c = Some (Callable (Returns b)) \<longrightarrow>
         count is_registration (scan_commands env c) = length (filter named_command (js_files cs))
         \<and> count is_warning (scan_commands env c) =
             length (filter (\<lambda>e. fails_to_load e \<or> exports_nothing e) (js_files cs))
         \<and> ((\<forall>e \<in> set (js_files cs). fails_to_load e \<or> named_command e) \<longrightarrow>
               count is_registration (scan_commands env c) =
                 length (js_files cs) - length (filter fails_to_load (js_files cs))
               \<and> count is_warning (scan_commands env c) =
                   length (filter fails_to_load (js_files cs))))
    \<and> (client_on c = Some (Callable (Returns b')) \<longrightarrow>
         count is_registration (scan_events env c) = length (filter bindable_event (js_files es))
         \<and> count is_warning (scan_events env c) =
             length (filter (\<lambda>e. fails_to_load e \<or> exports_nothing e) (js_files es))
         \<and> ((\<forall>e \<in> set (js_files es). fails_to_load e \<or> bindable_event e) \<longrightarrow>
               count is_registration (scan_events env c) =
                 length (js_files es) - length (filter fails_to_load (js_files es))
               \<and> count is_warning (scan_events env c) =
                   length (filter fails_to_load (js_files es))))"
proof -
  note nc = normal_load_command [of c] and ne = normal_load_event [of c]
  have n: "normal (scan_commands env c) \<and> normal (scan_events env c)"
    using scan_Entries(1) [of "load_command c", OF nc] scan_Entries(1) [of "load_event c", OF ne]
    by (simp add: scan_commands_def scan_events_def assms)
  have rc: "count is_require (scan_commands env c) = length (js_files cs)"
    using count_scan [of "load_command c" is_require "\<lambda>x. True", OF nc load_command_requires]
    by (simp add: scan_commands_def assms)
  have re: "count is_require (scan_events env c) = length (js_files es)"
    using count_scan [of "load_event c" is_require "\<lambda>x. True", OF ne load_event_requires]
    by (simp add: scan_events_def assms)
  have cmds: "count is_registration (scan_commands env c) = length (filter named_command (js_files cs))
         \<and> count is_warning (scan_commands env c) =
             length (filter (\<lambda>e. fails_to_load e \<or> exports_nothing e) (js_files cs))"
    if h: "commands_set c = Some (Callable (Returns b))"
    using count_scan [of "load_command c" is_registration named_command,
        OF nc load_command_counts(1) [OF h]]
      count_scan [of "load_command c" is_warning "\<lambda>e. fails_to_load e \<or> exports_nothing e",
        OF nc load_command_counts(2) [OF h]]
    by (simp add: scan_commands_def assms)
  have evs: "count is_registration (scan_events env c) = length (filter bindable_event (js_files es))
         \<and> count is_warning (scan_events env c) =
             length (filter (\<lambda>e. fails_to_load e \<or> exports_nothing e) (js_files es))"
    if h: "client_on c = Some (Callable (Returns b'))"
    using count_scan [of "load_event c" is_registration bindable_event,
        OF ne load_event_counts(1) [OF h]]
      count_scan [of "load_event c" is_warning "\<lambda>e. fails_to_load e \<or> exports_nothing e",
        OF ne load_event_counts(2) [OF h]]
    by (simp add: scan_events_def assms)
  have excl: "named_command e \<Longrightarrow> \<not> fails_to_load e" "bindable_event e \<Longrightarrow> \<not> fails_to_load e"
    "named_command e \<Longrightarrow> \<not> exports_nothing e" "bindable_event e \<Longrightarrow> \<not> exports_nothing e"
    "fails_to_load e \<Longrightarrow> \<not> exports_nothing e" for e
    by (auto simp: named_command_def bindable_event_def fails_to_load_def exports_nothing_def
          truthy_def split: sum.splits export.splits)
  have allc: "length (filter named_command (js_files cs)) =
        length (js_files cs) - length (filter fails_to_load (js_files cs))
      \<and> length (filter (\<lambda>e. fails_to_load e \<or> exports_nothing e) (js_files cs)) =
          length (filter fails_to_load (js_files cs))"
    if h: "\<forall>e \<in> set (js_files cs). fails_to_load e \<or> named_command e"
  proof -
    have "filter (\<lambda>e. fails_to_load e \<or> exports_nothing e) (js_files cs)
          = filter fails_to_load (js_files cs)"
      using h excl by (intro filter_cong) auto
    moreover have "length (filter named_command (js_files cs)) =
        length (js_files cs) - length (filter fails_to_load (js_files cs))"
      using h excl by (intro all_or_nothing) auto
    ultimately show ?thesis by simp
  qed
  have alle: "length (filter bindable_event (js_files es)) =
        length (js_files es) - length (filter fails_to_load (js_files es))
      \<and> length (filter (\<lambda>e. fails_to_load e \<or> exports_nothing e) (js_files es)) =
          length (filter fails_to_load (js_files es))"
    if h: "\<forall>e \<in> set (js_files es). fails_to_load e \<or> bindable_event e"
  proof -
    have "filter (\<lambda>e. fails_to_load e \<or> exports_nothing e) (js_files es)
          = filter fails_to_load (js_files es)"
      using h excl by (intro filter_cong) auto
    moreover have "length (filter bindable_event (js_files es)) =
        length (js_files es) - length (filter fails_to_load (js_files es))"
      using h excl by (intro all_or_nothing) auto
    ultimately show ?thesis by simp
  qed
  show ?thesis
    using n rc re cmds evs allc alle by simp
qed

theorem directory_scan_isolates_failures_witness:
  "commands_dir env_mixed_dirs = Entries mixed_commands
   \<and> events_dir env_mixed_dirs = Entries mixed_events
   \<and> commands_set bare_client = Some (Callable (Returns True))
   \<and> client_on bare_client = Some (Callable (Returns True))
   \<and> list_all (\<lambda>e. fails_to_load e \<or> named_command e) (js_files mixed_commands)
   \<and> list_all (\<lambda>e. fails_to_load e \<or> bindable_event e) (js_files mixed_events)
   \<and> length (js_files mixed_commands) = 3
   \<and> length (filter fails_to_load (js_files mixed_commands)) = 1
   \<and> count is_require (scan_commands env_mixed_dirs bare_client) = 3
   \<and> count is_registration (scan_commands env_mixed_dirs bare_client) = 2
   \<and> count is_warning (scan_commands env_mixed_dirs bare_client) = 1
   \<and> count is_registration (scan_events env_mixed_dirs bare_client) = 1
   \<and> count is_warning (scan_events env_mixed_dirs bare_client) = 1"
proof -
  have h1: "commands_dir env_mixed_dirs = Entries mixed_commands"
    and h2: "events_dir env_mixed_dirs = Entries mixed_events"
    by (simp_all add: env_mixed_dirs_def)
  have h3: "commands_set bare_client = Some (Callable (Returns True))"
    and h4: "client_on bare_client = Some (Callable (Returns True))"
    by (simp_all add: bare_client_def)
  have jc: "js_files mixed_commands =
      [(''ping.js'', Inr (Obj (Some ''ping'') True)), (''broken.js'', Inl ''SyntaxError''),
       (''help.js'', Inr (Func ''help''))]"
    by (simp add: js_files_def mixed_commands_def endsWith_def)
  have je: "js_files mixed_events =
      [(''ready.js'', Inr (Func ''ready'')), (''broken.js'', Inl ''SyntaxError'')]"
    by (simp add: js_files_def mixed_events_def endsWith_def)
  have h5: "\<forall>e \<in> set (js_files mixed_commands). fails_to_load e \<or> named_command e"
    by (simp add: jc fails_to_load_def named_command_def truthy_def)
  have h6: "\<forall>e \<in> set (js_files mixed_events). fails_to_load e \<or> bindable_event e"
    by (simp add: je fails_to_load_def bindable_event_def)
  have m: "length (filter fails_to_load (js_files mixed_commands)) = 1"
    "length (filter fails_to_load (js_files mixed_events)) = 1"
    by (simp_all add: jc je fails_to_load_def)
  show ?thesis
    using h3 h4 h5 h6 m
      directory_scan_isolates_failures [OF h1 h2, of bare_client True True]
    by (simp add: h1 h2 jc je list_all_iff)
qed



text \<open>
  C8, as stated: every run installs two process-wide handlers, and neither ever
  does anything but record. A complete run of bot.js registers one, for
  \<^verbatim>\<open>unhandledRejection\<close>, and none for \<^verbatim>\<open>uncaughtException\<close>; and the
  \<^verbatim>\<open>uncaughtException\<close> handler of part_000, run with a client whose
  \<^verbatim>\<open>logger.error\<close> throws, ends with that exception thrown out of the handler.
\<close>

theorem handlers_counterexample:
  "snd (main_bot env_bot0) = Normal
   \<and> installs (fst (main_bot env_bot0)) = [''unhandledRejection'']
   \<and> ProcessOn ''uncaughtException'' \<notin> set (fst (main_bot env_bot0))
   \<and> uncaughtException_p0 throwing_client ''oops'' =
        ([LoggerCall Error [''Uncaught Exception:'', ''oops'']], Thrown ''logger down'')"
  by code_simp

text \<open>
  C8, amended. Every run of part_000 that constructs its client registers
  exactly two handlers, for \<^verbatim>\<open>unhandledRejection\<close> and \<^verbatim>\<open>uncaughtException\<close>; no
  run of bot.js registers one for \<^verbatim>\<open>uncaughtException\<close>, and a run of bot.js that
  gets past validation, construction and the loaders registers exactly the one
  for \<^verbatim>\<open>unhandledRejection\<close>. Each handler calls the client logger's \<^verbatim>\<open>error\<close>
  first when that is a function, and writes to the console when there is no
  such method. No handler ever terminates the process by calling
  \<^verbatim>\<open>process.exit\<close>. The handler of bot.js always returns normally, and all it
  does is write log records. A handler of part_000 returns normally, having
  done nothing but write log records, when the logger's \<^verbatim>\<open>error\<close> returns or
  is absent; when that method throws, the exception leaves the handler.
\<close>

theorem handlers_by_variant:
  "(snd (resolve_BotClient envp) = Some (Inr c) \<longrightarrow>
      installs (fst (main_p0 envp)) = [''unhandledRejection'', ''uncaughtException''])
   \<and> ProcessOn ''uncaughtException'' \<notin> set (fst (main_bot envb))
   \<and> (normal (validation_bot envb) \<and> BotClient_bot envb = Some (Inr cb) \<and> normal (loaders_bot cb)
        \<longrightarrow> installs (fst (main_bot envb)) = [''unhandledRejection''])
   \<and> (is_function (error_logger (Some c)) \<longrightarrow>
        take 1 (fst (unhandledRejection_p0 c x)) = [LoggerCall Error [''Unhandled Rejection:'', x]]
        \<and> take 1 (fst (uncaughtException_p0 c x)) = [LoggerCall Error [''Uncaught Exception:'', x]])
   \<and> (error_logger (Some c) = None \<longrightarrow>
        unhandledRejection_p0 c x = ([Console Error [''[ERROR]'', ''Unhandled Rejection:'', x]], Normal)
        \<and> uncaughtException_p0 c x = ([Console Error [''[ERROR]'', ''Uncaught Exception:'', x]], Normal))
   \<and> (is_function (error_logger oc) \<longrightarrow>
        take 1 (fst (unhandledRejection_bot oc x)) = [LoggerCall Error [''unhandledRejection'', x]])
   \<and> (\<not> is_function (error_logger oc) \<longrightarrow>
        unhandledRejection_bot oc x = ([Console Error [''unhandledRejection'', x]], Normal))
   \<and> \<not> exit_called (unhandledRejection_p0 c x) \<and> no_exit (unhandledRejection_p0 c x)
   \<and> \<not> exit_called (uncaughtException_p0 c x) \<and> no_exit (uncaughtException_p0 c x)
   \<and> \<not> exit_called (unhandledRejection_bot oc x) \<and> no_exit (unhandledRejection_bot oc x)
   \<and> normal (unhandledRejection_bot oc x) \<and> events_ok recording (unhandledRejection_bot oc x)
   \<and> (error_logger (Some c) = None \<or> error_logger (Some c) = Some (Callable (Returns b))
        \<longrightarrow> normal (unhandledRejection_p0 c x) \<and> events_ok recording (unhandledRejection_p0 c x)
            \<and> normal (uncaughtException_p0 c x) \<and> events_ok recording (uncaughtException_p0 c x))
   \<and> (error_logger (Some c) = Some (Callable (Throws e)) \<longrightarrow>
        unhandledRejection_p0 c x = ([LoggerCall Error [''Unhandled Rejection:'', x]], Thrown e)
        \<and> uncaughtException_p0 c x = ([LoggerCall Error [''Uncaught Exception:'', x]], Thrown e))"
proof -
  have never: "ProcessOn ''uncaughtException'' \<notin> set (fst (main_bot envb))"
    unfolding installs_mem [symmetric] installs_main_bot
    by (simp split: option.splits sum.splits)
  have bot1: "is_function (error_logger oc) \<Longrightarrow>
        take 1 (fst (unhandledRejection_bot oc x)) = [LoggerCall Error [''unhandledRejection'', x]]"
    by (auto simp: handler_bot_cases is_function_def split: option.splits jsvalue.splits result.splits)
  have bot2: "\<not> is_function (error_logger oc) \<Longrightarrow>
        unhandledRejection_bot oc x = ([Console Error [''unhandledRejection'', x]], Normal)"
    by (auto simp: handler_bot_cases is_function_def split: option.splits jsvalue.splits result.splits)
  have bot3: "\<not> exit_called (unhandledRejection_bot oc x) \<and> no_exit (unhandledRejection_bot oc x)"
    by (auto simp: handler_bot_cases exit_called_iff no_exit_def
        split: option.splits jsvalue.splits result.splits)
  have old: "(snd (resolve_BotClient envp) = Some (Inr c) \<longrightarrow>
      installs (fst (main_p0 envp)) = [''unhandledRejection'', ''uncaughtException''])
   \<and> ProcessOn ''uncaughtException'' \<notin> set (fst (main_bot envb))
   \<and> (normal (validation_bot envb) \<and> BotClient_bot envb = Some (Inr cb) \<and> normal (loaders_bot cb)
        \<longrightarrow> installs (fst (main_bot envb)) = [''unhandledRejection''])
   \<and> (is_function (error_logger (Some c)) \<longrightarrow>
        take 1 (fst (unhandledRejection_p0 c x)) = [LoggerCall Error [''Unhandled Rejection:'', x]]
        \<and> take 1 (fst (uncaughtException_p0 c x)) = [LoggerCall Error [''Uncaught Exception:'', x]])
   \<and> (error_logger (Some c) = None \<longrightarrow>
        unhandledRejection_p0 c x = ([Console Error [''[ERROR]'', ''Unhandled Rejection:'', x]], Normal)
        \<and> uncaughtException_p0 c x = ([Console Error [''[ERROR]'', ''Uncaught Exception:'', x]], Normal))
   \<and> (is_function (error_logger oc) \<longrightarrow>
        take 1 (fst (unhandledRejection_bot oc x)) = [LoggerCall Error [''unhandledRejection'', x]])
   \<and> (\<not> is_function (error_logger oc) \<longrightarrow>
        unhandledRejection_bot oc x = ([Console Error [''unhandledRejection'', x]], Normal))
   \<and> \<not> exit_called (unhandledRejection_p0 c x) \<and> no_exit (unhandledRejection_p0 c x)
   \<and> \<not> exit_called (uncaughtException_p0 c x) \<and> no_exit (uncaughtException_p0 c x)
   \<and> \<not> exit_called (unhandledRejection_bot oc x) \<and> no_exit (unhandledRejection_bot oc x)"
    using never bot1 bot2 bot3 installs_main_p0 [of envp c]
      handler_p0_logger [of c _ x] handler_p0_console [of c _ x] handler_p0_no_exit [of _ c x]
    by (simp add: installs_main_bot unhandledRejection_p0_def uncaughtException_p0_def)
  have new: "normal (unhandledRejection_bot oc x) \<and> events_ok recording (unhandledRejection_bot oc x)
   \<and> (error_logger (Some c) = None \<or> error_logger (Some c) = Some (Callable (Returns b))
        \<longrightarrow> normal (unhandledRejection_p0 c x) \<and> events_ok recording (unhandledRejection_p0 c x)
            \<and> normal (uncaughtException_p0 c x) \<and> events_ok recording (uncaughtException_p0 c x))
   \<and> (error_logger (Some c) = Some (Callable (Throws e)) \<longrightarrow>
        unhandledRejection_p0 c x = ([LoggerCall Error [''Unhandled Rejection:'', x]], Thrown e)
        \<and> uncaughtException_p0 c x = ([LoggerCall Error [''Uncaught Exception:'', x]], Thrown e))"
    using handler_bot_returns [of oc x] handler_p0_returns [of c b _ x]
      handler_p0_throws [of c e _ x]
    by (simp add: unhandledRejection_p0_def uncaughtException_p0_def)
  from old new show ?thesis by blast
qed

theorem handlers_by_variant_witness:
  "snd (resolve_BotClient env_p00) = Some (Inr bare_client)
   \<and> installs (fst (main_p0 env_p00)) = [''unhandledRejection'', ''uncaughtException'']
   \<and> normal (validation_bot env_bot0) \<and> BotClient_bot env_bot0 = Some (Inr MinimalBotClient)
   \<and> normal (loaders_bot MinimalBotClient)
   \<and> installs (fst (main_bot env_bot0)) = [''unhandledRejection'']
   \<and> is_function (error_logger (Some bare_client))
   \<and> take 1 (fst (uncaughtException_p0 bare_client ''oops'')) =
        [LoggerCall Error [''Uncaught Exception:'', ''oops'']]
   \<and> error_logger (Some (bare_client\<lparr>logger := None\<rparr>)) = None
   \<and> unhandledRejection_p0 (bare_client\<lparr>logger := None\<rparr>) ''oops'' =
        ([Console Error [''[ERROR]'', ''Unhandled Rejection:'', ''oops'']], Normal)
   \<and> \<not> is_function (error_logger None)
   \<and> unhandledRejection_bot None ''oops'' = ([Console Error [''unhandledRejection'', ''oops'']], Normal)
   \<and> error_logger (Some bare_client) = Some (Callable (Returns False))
   \<and> normal (uncaughtException_p0 bare_client ''oops'')
   \<and> events_ok recording (uncaughtException_p0 bare_client ''oops'')
   \<and> error_logger (Some throwing_client) = Some (Callable (Throws ''logger down''))
   \<and> unhandledRejection_p0 throwing_client ''oops'' =
        ([LoggerCall Error [''Unhandled Rejection:'', ''oops'']], Thrown ''logger down'')"
proof -
  have h1: "snd (resolve_BotClient env_p00) = Some (Inr bare_client)"
    by (simp add: resolve_BotClient_def env_p00_def)
  have h2: "normal (validation_bot env_bot0)" by code_simp
  have h3: "BotClient_bot env_bot0 = Some (Inr MinimalBotClient)"
    by (simp add: BotClient_bot_def env_bot0_def)
  have h4: "normal (loaders_bot MinimalBotClient)" by (simp add: loaders_Minimal normal_def)
  have h5: "is_function (error_logger (Some bare_client))"
    by (simp add: error_logger_def bare_client_def is_function_def)
  have h6: "error_logger (Some (bare_client\<lparr>logger := None\<rparr>)) = None"
    by (simp add: error_logger_def)
  have h7: "\<not> is_function (error_logger None)"
    by (simp add: error_logger_def is_function_def)
  have h8: "error_logger (Some bare_client) = Some (Callable (Returns False))"
    by (simp add: error_logger_def bare_client_def)
  have h9: "error_logger (Some throwing_client) = Some (Callable (Throws ''logger down''))"
    by (simp add: error_logger_def throwing_client_def)
  have thrown: "unhandledRejection_p0 throwing_client ''oops'' =
        ([LoggerCall Error [''Unhandled Rejection:'', ''oops'']], Thrown ''logger down'')"
    using h9 handlers_by_variant [of env_p00 throwing_client env_bot0 MinimalBotClient
        "''oops''" None False "''logger down''"]
    by blast
  show ?thesis
    using h1 h2 h3 h4 h5 h6 h7 h8 h9 thrown
      handlers_by_variant [of env_p00 bare_client env_bot0 MinimalBotClient "''oops''" None
        False "''logger down''"]
      handlers_by_variant [of env_p00 "bare_client\<lparr>logger := None\<rparr>" env_bot0 MinimalBotClient
        "''oops''" None False "''logger down''"]
    by simp
qed

text \<open>
  C9. In part_000, when a token is present and the constructed client has no
  \<^verbatim>\<open>login\<close> function, the script logs an error and the main function returns:
  \<^verbatim>\<open>process.exit\<close> is never called, \<^verbatim>\<open>login\<close> is never invoked, and the error line
  is the last event of the run.
\<close>

theorem missing_login_function_completes:
  assumes token: "truthy (token_p0 env)"
    and client: "snd (resolve_BotClient env) = Some (Inr c)"
    and nologin: "\<not> is_function (login c)"
  shows "snd (main_p0 env) = Normal \<and> \<not> exit_called (main_p0 env)
         \<and> \<not> login_invoked (main_p0 env)
         \<and> last (fst (main_p0 env)) =
             Console Error [''[ERROR]'', ''client.login is not a function. Ensure your BotClient extends discord.js Client or provides login(token).'']"
proof -
  from client have res: "normal (fst (resolve_BotClient env))"
    and resb: "events_ok benign (fst (resolve_BotClient env))"
    using resolve_Some by blast+
  note ls = login_step_no_function [OF token nologin]
  have st: "snd (main_p0 env) = Normal"
    by (simp add: main_p0_snd [OF res] client construct_Inr after_construct_p0_snd ls)
  have ev: "fst (main_p0 env) =
      DotenvConfig # Console Log [''ASCII_BANNER''] # fst (fst (resolve_BotClient env))
       @ (fst (validate_step env) @ fst (update_step env) @ fst (mongoose_step env))
       @ New ''BotClient'' # ProcessOn ''unhandledRejection'' # ProcessOn ''uncaughtException''
       # (fst (commands_step env c) @ fst (events_step env c) @ fst (registerEvents_step env c)
          @ fst (dashboard_step env))
       @ [Console Error [''[ERROR]'', ''client.login is not a function. Ensure your BotClient extends discord.js Client or provides login(token).'']]"
    by (simp add: main_p0_fst [OF res] client construct_Inr after_construct_p0_fst ls)
  have no_exit_ev: "\<not> exit_called (main_p0 env)"
    using resb benign_early_p0 [of env Normal] benign_middle_p0 [of env c Normal]
    by (auto simp: exit_called_iff ev events_ok_def elim: benign_elims)
  have no_login_ev: "\<not> login_invoked (main_p0 env)"
    using resb benign_early_p0 [of env Normal] benign_middle_p0 [of env c Normal]
    by (auto simp: login_invoked_def ev events_ok_def elim: benign_elims)
  have "last (fst (main_p0 env)) =
      Console Error [''[ERROR]'', ''client.login is not a function. Ensure your BotClient extends discord.js Client or provides login(token).'']"
    unfolding ev by simp
  with st no_exit_ev no_login_ev show ?thesis by blast
qed

theorem missing_login_function_completes_witness:
  "truthy (token_p0 env_p00) \<and> snd (resolve_BotClient env_p00) = Some (Inr bare_client)
   \<and> \<not> is_function (login bare_client)
   \<and> snd (main_p0 env_p00) = Normal \<and> \<not> exit_called (main_p0 env_p00)
   \<and> \<not> login_invoked (main_p0 env_p00)"
proof -
  have token: "truthy (token_p0 env_p00)"
    by (simp add: token_p0_def truthy_def env_p00_def)
  have client: "snd (resolve_BotClient env_p00) = Some (Inr bare_client)"
    by (simp add: resolve_BotClient_def env_p00_def)
  have nologin: "\<not> is_function (login bare_client)"
    by (simp add: is_function_def bare_client_def)
  show ?thesis
    using token client nologin missing_login_function_completes [OF token client nologin]
    by simp
qed

text \<open>
  C10. The \<^verbatim>\<open>unhandledRejection\<close> handler of bot.js is total. Whatever the error and
  the client (absent, without logger, with an \<^verbatim>\<open>error\<close> that is no function, or with
  one that throws), it returns normally and never calls \<^verbatim>\<open>process.exit\<close>: it logs
  through the client's logger when \<^verbatim>\<open>error\<close> is a function, through the console
  otherwise, and an exception thrown by the logger is caught and reported on the
  console.
\<close>

theorem unhandledRejection_bot_total:
  "snd (unhandledRejection_bot c err) = Normal
   \<and> \<not> exit_called (unhandledRejection_bot c err)
   \<and> fst (unhandledRejection_bot c err) =
       (case error_logger c of
          Some (Callable (Returns b)) \<Rightarrow> [LoggerCall Error [''unhandledRejection'', err]]
        | Some (Callable (Throws e)) \<Rightarrow>
            [LoggerCall Error [''unhandledRejection'', err],
             Console Error [''Error logging unhandledRejection:'', e]]
        | _ \<Rightarrow> [Console Error [''unhandledRejection'', err]])"
  by (simp add: unhandledRejection_bot_def error_logger_def try_catch_def emit_def invoke_def
        is_function_def exit_called_def
      split: option.splits jsvalue.splits result.splits)

theorem unhandledRejection_bot_total_witness:
  "snd (unhandledRejection_bot (Some throwing_client) ''reason'') = Normal
   \<and> \<not> exit_called (unhandledRejection_bot (Some throwing_client) ''reason'')
   \<and> fst (unhandledRejection_bot (Some throwing_client) ''reason'') =
       [LoggerCall Error [''unhandledRejection'', ''reason''],
        Console Error [''Error logging unhandledRejection:'', ''logger down'']]"
  using unhandledRejection_bot_total [of "Some throwing_client" "''reason''"]
  by (simp add: error_logger_def throwing_client_def bare_client_def)

end
